theory Spec2Isabelle
  imports Main
begin

section \<open>Effects: a trace of what the program does, and the exception it may raise\<close>

text \<open>
  The script \<^verbatim>\<open>xlsx2docx-byColumns.py\<close> edits python-docx documents in place, prints
  diagnostics, creates directories and saves files. The model makes these effects explicit:
  a computation yields the list of events it has caused, in order, together with either the
  exception that ended it or its result. The events caused before an exception stay in the
  trace, as the output printed before a Python traceback stays on the terminal.

  The arguments of the functions that edit the document, which their docstrings type as
  strings, are modelled as \<open>string option\<close>: \<open>None\<close> for Python's \<^verbatim>\<open>None\<close> and
  \<open>Some s\<close> for the text \<open>s\<close>.
\<close>

datatype error =
    TypeError                \<comment> \<open>\<^verbatim>\<open>None in para.text\<close>\<close>
  | StyleNotFound string     \<comment> \<open>python-docx: \<^verbatim>\<open>KeyError("no style with name ...")\<close>\<close>
  | FileNotFoundError        \<comment> \<open>\<^verbatim>\<open>os.makedirs("")\<close>\<close>
  | KeyError string          \<comment> \<open>\<^verbatim>\<open>os.environ[...]\<close> on a variable that is not set\<close>
  | ValueError               \<comment> \<open>openpyxl: \<^verbatim>\<open>sheet.cell\<close> with a row or column below 1\<close>
  | PackageNotFoundError string  \<comment> \<open>python-docx: the template file does not exist\<close>

record "paragraph" =
  para_text :: string
  para_style :: "string option"   \<comment> \<open>\<open>None\<close>: no style of its own, the template's default paragraph style\<close>

record cell =
  cell_paragraphs :: "paragraph list"

record row =
  cells :: "cell list"

record table =
  rows :: "row list"

record header_footer =
  hf_paragraphs :: "paragraph list"
  hf_tables :: "table list"

record "section" =
  header :: header_footer
  footer :: header_footer

record document =
  paragraphs :: "paragraph list"
  tables :: "table list"
  sections :: "section list"
  styles :: "string list"    \<comment> \<open>the names of the paragraph styles the template defines\<close>
  author :: string           \<comment> \<open>\<^verbatim>\<open>core_properties.author\<close>\<close>

datatype event =
    Replaced string string "string option"  \<comment> \<open>line 85: context, old text, content\<close>
  | SetStyle string                         \<comment> \<open>line 89\<close>
  | Generate string string                  \<comment> \<open>line 221: output file, template\<close>
  | Author string                           \<comment> \<open>line 226\<close>
  | Unexpected string "string option"       \<comment> \<open>line 243: command, content\<close>
  | MakeDirs string                         \<comment> \<open>\<^verbatim>\<open>os.makedirs(baseFolder, exist_ok=True)\<close>\<close>
  | Saved string document                   \<comment> \<open>\<^verbatim>\<open>doc.save(filename)\<close>\<close>

type_synonym 'a io = "event list \<times> (error + 'a)"

definition ret :: "'a \<Rightarrow> 'a io" where
  "ret x = ([], Inr x)"

definition raise :: "error \<Rightarrow> 'a io" where
  "raise e = ([], Inl e)"

definition emit :: "event \<Rightarrow> unit io" where
  "emit ev = ([ev], Inr ())"

definition bind_io :: "'a io \<Rightarrow> ('a \<Rightarrow> 'b io) \<Rightarrow> 'b io" where
  "bind_io m f =
     (case snd m of
        Inl e \<Rightarrow> (fst m, Inl e)
      | Inr x \<Rightarrow> (fst m @ fst (f x), snd (f x)))"

text \<open>
  \<^verbatim>\<open>for x in xs: body(x)\<close>, where the body edits \<open>x\<close> in place: the elements are visited
  from the first to the last, each edit is kept, and the first exception ends the loop.
\<close>

fun for_each :: "('a \<Rightarrow> 'a io) \<Rightarrow> 'a list \<Rightarrow> 'a list io" where
  "for_each body [] = ret []"
| "for_each body (x # xs) =
     bind_io (body x) (\<lambda>x'. bind_io (for_each body xs) (\<lambda>xs'. ret (x' # xs')))"

section \<open>Python's string operations\<close>

text \<open>\<^verbatim>\<open>s in t\<close> on two strings: \<open>s\<close> occurs in \<open>t\<close> as a contiguous substring.\<close>

fun str_in :: "string \<Rightarrow> string \<Rightarrow> bool" where
  "str_in s [] = (s = [])"
| "str_in s (c # cs) = (take (length s) (c # cs) = s \<or> str_in s cs)"

text \<open>Truthiness of a cell value: \<^verbatim>\<open>if v:\<close> holds for a text that is not empty.\<close>

fun truthy :: "string option \<Rightarrow> bool" where
  "truthy None = False"
| "truthy (Some s) = (s \<noteq> [])"

section \<open>The replace operation\<close>

text \<open>
  python-docx, \<^verbatim>\<open>para.text = content\<close>: the paragraph's runs are replaced by one run
  holding \<open>content\<close>, and by none when \<open>content\<close> is \<^verbatim>\<open>None\<close> or empty.
\<close>

definition set_text :: "paragraph \<Rightarrow> string option \<Rightarrow> paragraph" where
  "set_text para content = para\<lparr>para_text := (case content of None \<Rightarrow> [] | Some c \<Rightarrow> c)\<rparr>"

text \<open>
  python-docx, \<^verbatim>\<open>para.style = name\<close>: the name is looked up among the styles of the
  document the paragraph belongs to; a name that is not defined raises.
\<close>

definition set_style :: "string list \<Rightarrow> paragraph \<Rightarrow> string \<Rightarrow> paragraph io" where
  "set_style defined para name =
     (if name \<in> set defined then ret (para\<lparr>para_style := Some name\<rparr>)
      else raise (StyleNotFound name))"

text \<open>
  \<^verbatim>\<open>replaceInParagraph(para, replace, content, style, contextString)\<close>, lines 63 to 92.
  The first argument of the model lists the styles of the document that owns \<open>para\<close>.
\<close>

definition replaceInParagraph ::
  "string list \<Rightarrow> paragraph \<Rightarrow> string option \<Rightarrow> string option \<Rightarrow> string option \<Rightarrow> string
     \<Rightarrow> paragraph io" where
  "replaceInParagraph defined para replace content style contextString =
     (case replace of
        None \<Rightarrow> raise TypeError
      | Some r \<Rightarrow>
          if str_in r (para_text para) then
            bind_io (emit (Replaced contextString (para_text para) content)) (\<lambda>_.
              let para' = set_text para content in
              if truthy style \<and> style \<noteq> Some ''None'' then
                bind_io (emit (SetStyle (the style))) (\<lambda>_. set_style defined para' (the style))
              else ret para')
          else ret para)"

text \<open>The four nested loops over a list of tables: table, row, cell, paragraph.\<close>

definition in_cell :: "(paragraph \<Rightarrow> paragraph io) \<Rightarrow> cell \<Rightarrow> cell io" where
  "in_cell body c =
     bind_io (for_each body (cell_paragraphs c)) (\<lambda>ps. ret (c\<lparr>cell_paragraphs := ps\<rparr>))"

definition in_row :: "(paragraph \<Rightarrow> paragraph io) \<Rightarrow> row \<Rightarrow> row io" where
  "in_row body r =
     bind_io (for_each (in_cell body) (cells r)) (\<lambda>cs. ret (r\<lparr>cells := cs\<rparr>))"

definition in_table :: "(paragraph \<Rightarrow> paragraph io) \<Rightarrow> table \<Rightarrow> table io" where
  "in_table body t =
     bind_io (for_each (in_row body) (rows t)) (\<lambda>rs. ret (t\<lparr>rows := rs\<rparr>))"

text \<open>The body of \<^verbatim>\<open>for section in doc.sections\<close>, lines 143 to 159.\<close>

definition in_section ::
  "string list \<Rightarrow> string option \<Rightarrow> string option \<Rightarrow> string option \<Rightarrow> section \<Rightarrow> section io" where
  "in_section defined replace content style s =
     bind_io (for_each (\<lambda>p. replaceInParagraph defined p replace content style ''section.header'')
                (hf_paragraphs (header s))) (\<lambda>hps.
     bind_io (for_each (in_table (\<lambda>p. replaceInParagraph defined p replace content style
                                        ''section.header.tables''))
                (hf_tables (header s))) (\<lambda>hts.
     bind_io (for_each (\<lambda>p. replaceInParagraph defined p replace content style ''section.footer'')
                (hf_paragraphs (footer s))) (\<lambda>fps.
     bind_io (for_each (in_table (\<lambda>p. replaceInParagraph defined p replace content style
                                        ''section.footer.tables''))
                (hf_tables (footer s))) (\<lambda>fts.
     ret (s\<lparr>header := (header s)\<lparr>hf_paragraphs := hps, hf_tables := hts\<rparr>,
            footer := (footer s)\<lparr>hf_paragraphs := fps, hf_tables := fts\<rparr>\<rparr>)))))"

text \<open>\<^verbatim>\<open>replaceParagraphInDoc(doc, replace, content, style)\<close>, lines 95 to 161.\<close>

definition replaceParagraphInDoc ::
  "document \<Rightarrow> string option \<Rightarrow> string option \<Rightarrow> string option \<Rightarrow> document io" where
  "replaceParagraphInDoc doc replace content style =
     bind_io (for_each (\<lambda>p. replaceInParagraph (styles doc) p replace content style ''doc.paragraphs'')
                (paragraphs doc)) (\<lambda>ps.
     bind_io (for_each (in_table (\<lambda>p. replaceInParagraph (styles doc) p replace content style
                                        ''doc.tables''))
                (tables doc)) (\<lambda>ts.
     bind_io (for_each (in_section (styles doc) replace content style) (sections doc)) (\<lambda>ss.
     ret (doc\<lparr>paragraphs := ps, tables := ts, sections := ss\<rparr>))))"

section \<open>The replace operation on a document with shared paragraphs\<close>












section \<open>Timestamped file names\<close>

text \<open>
  \<^verbatim>\<open>time.strftime("%Y-%m-%d_%H%M%S")\<close> formats the local time, read from the clock as a
  broken-down time of year, month, day, hour, minute and second: \<^verbatim>\<open>%Y\<close> is the year in
  decimal, the other fields are decimal numbers padded with zeros to two places.
\<close>

record tm =
  tm_year :: nat
  tm_mon :: nat
  tm_mday :: nat
  tm_hour :: nat
  tm_min :: nat
  tm_sec :: nat

definition digit :: "nat \<Rightarrow> char" where
  "digit n = ''0123456789'' ! (n mod 10)"

fun dec :: "nat \<Rightarrow> string" where
  "dec n = (if n < 10 then [digit n] else dec (n div 10) @ [digit n])"

declare dec.simps [simp del]

definition pad2 :: "nat \<Rightarrow> string" where
  "pad2 n = replicate (2 - length (dec n)) (CHR ''0'') @ dec n"

text \<open>\<^verbatim>\<open>getCurrentTimeAsString()\<close>, lines 30 to 33; the argument is the clock's reading.\<close>

definition getCurrentTimeAsString :: "tm \<Rightarrow> string" where
  "getCurrentTimeAsString now =
     dec (tm_year now) @ ''-'' @ pad2 (tm_mon now) @ ''-'' @ pad2 (tm_mday now) @ ''_'' @
     pad2 (tm_hour now) @ pad2 (tm_min now) @ pad2 (tm_sec now)"

text \<open>
  \<^verbatim>\<open>p.rfind(c)\<close>: the index of the last \<open>c\<close> in \<open>p\<close>, and \<open>-1\<close> when there is none.
  \<^verbatim>\<open>os.path.splitext\<close> and \<^verbatim>\<open>os.path.dirname\<close> follow Python's \<^verbatim>\<open>posixpath\<close>:
  the extension starts at the last dot of the last path component, unless that component
  has only dots before it; the directory name is the part up to the last slash, without
  its trailing slashes unless it consists of slashes only.
\<close>

definition rfind :: "char \<Rightarrow> string \<Rightarrow> int" where
  "rfind c p = int (length (dropWhile (\<lambda>x. x \<noteq> c) (rev p))) - 1"

definition splitext :: "string \<Rightarrow> string \<times> string" where
  "splitext p =
     (let sepIndex = rfind (CHR ''/'') p;
          dotIndex = rfind (CHR ''.'') p
      in if dotIndex > sepIndex \<and>
            (\<exists>c \<in> set (take (nat (dotIndex - (sepIndex + 1))) (drop (nat (sepIndex + 1)) p)).
               c \<noteq> CHR ''.'')
         then (take (nat dotIndex) p, drop (nat dotIndex) p)
         else (p, []))"

definition dirname :: "string \<Rightarrow> string" where
  "dirname p =
     (let i = rfind (CHR ''/'') p + 1;
          head = take (nat i) p
      in if head \<noteq> [] \<and> head \<noteq> replicate (length head) (CHR ''/'')
         then rev (dropWhile (\<lambda>c. c = CHR ''/'') (rev head))
         else head)"

text \<open>\<^verbatim>\<open>appendTimestampToFilename(filename)\<close>, lines 36 to 42, at the clock reading \<open>now\<close>.\<close>

definition appendTimestampToFilename :: "tm \<Rightarrow> string \<Rightarrow> string" where
  "appendTimestampToFilename now filename =
     (case splitext filename of
        (name, ext) \<Rightarrow> name @ ''_'' @ getCurrentTimeAsString now @ ext)"

text \<open>
  \<^verbatim>\<open>os.makedirs(path, exist_ok=True)\<close> raises on the empty path, and creates the
  directory and its missing parents otherwise.
\<close>

definition os_makedirs :: "string \<Rightarrow> unit io" where
  "os_makedirs path = (if path = [] then raise FileNotFoundError else emit (MakeDirs path))"

text \<open>\<^verbatim>\<open>ensureDirectoryExists(filename)\<close>, lines 45 to 47.\<close>

definition ensureDirectoryExists :: "string \<Rightarrow> unit io" where
  "ensureDirectoryExists filename = (let baseFolder = dirname filename in os_makedirs baseFolder)"

text \<open>
  \<^verbatim>\<open>appendTimestampToFilenames(filenames)\<close>, lines 50 to 61. Every file name reads the
  clock anew: \<open>clock k\<close> is the \<open>k\<close>-th reading of the run, and the loop starts at reading
  \<open>k\<close>.
\<close>

fun appendTimestampToFilenames :: "(nat \<Rightarrow> tm) \<Rightarrow> nat \<Rightarrow> string list \<Rightarrow> string list io" where
  "appendTimestampToFilenames clock k [] = ret []"
| "appendTimestampToFilenames clock k (filename # filenames) =
     (let stamped = appendTimestampToFilename (clock k) filename in
      bind_io (ensureDirectoryExists filename) (\<lambda>_.
      bind_io (appendTimestampToFilenames clock (Suc k) filenames) (\<lambda>rest.
      ret (stamped # rest))))"

section \<open>The generation driver\<close>

text \<open>
  What the run reads from its environment: the operating system's name and environment
  variables, the clock, and the template files that exist.
\<close>

record world =
  os_name :: string
  environ :: "string \<rightharpoonup> string"
  clock :: "nat \<Rightarrow> tm"
  docx_files :: "string \<rightharpoonup> document"

text \<open>
  The value of a spreadsheet cell as openpyxl gives it: \<^verbatim>\<open>None\<close> for an empty cell, a
  string, a number (an \<^verbatim>\<open>int\<close> or a \<^verbatim>\<open>float\<close>; the script only ever tests
  whether it is zero, so the model keeps an integer), a truth value, or a date or time.
  \<^verbatim>\<open>if v:\<close> holds for a text that is not empty, a number that is not zero,
  \<^verbatim>\<open>True\<close> and every date.
\<close>

datatype xl_value = Empty | Text string | Number int | Boolean bool | DateTime

fun truthy_value :: "xl_value \<Rightarrow> bool" where
  "truthy_value Empty = False"
| "truthy_value (Text s) = (s \<noteq> [])"
| "truthy_value (Number n) = (n \<noteq> 0)"
| "truthy_value (Boolean b) = b"
| "truthy_value DateTime = True"

fun is_text :: "xl_value \<Rightarrow> bool" where
  "is_text (Text s) = True"
| "is_text _ = False"

text \<open>
  The value as an argument of the functions that edit the document: the text of a text
  cell, and \<open>None\<close> otherwise. For the replace cell this loses nothing, since
  \<^verbatim>\<open>v in para.text\<close> raises the same \<^verbatim>\<open>TypeError\<close> for every \<open>v\<close> that is not a
  string. A content or style cell that is not text reaches python-docx as the number, truth
  value or date it is; what python-docx does with it is outside this model, which follows
  the docstrings of the script and takes these arguments as text.
\<close>

fun as_text :: "xl_value \<Rightarrow> string option" where
  "as_text (Text s) = Some s"
| "as_text _ = None"

text \<open>The worksheet: openpyxl's \<^verbatim>\<open>sheet.max_row\<close> and \<^verbatim>\<open>sheet.cell(row, column).value\<close>.\<close>

record sheet =
  max_row :: int
  cell_value :: "int \<Rightarrow> int \<Rightarrow> xl_value"

definition sheet_cell :: "sheet \<Rightarrow> int \<Rightarrow> int \<Rightarrow> xl_value io" where
  "sheet_cell sh r c = (if r < 1 \<or> c < 1 then raise ValueError else ret (cell_value sh r c))"

text \<open>The parameters of \<^verbatim>\<open>generateDocxFromXlsx\<close>, as \<^verbatim>\<open>xlx2docx\<close> reads them from the configuration.\<close>

record config =
  contentStartRow :: int
  commandColumn :: int
  styleColumn :: int
  replaceColumn :: int
  contentColumns :: "int list"
  templateFilename :: string
  outputFilenames :: "string list"

text \<open>\<^verbatim>\<open>getUsername()\<close>, lines 164 to 183.\<close>

definition environ_get :: "world \<Rightarrow> string \<Rightarrow> string io" where
  "environ_get w key = (case environ w key of None \<Rightarrow> raise (KeyError key) | Some v \<Rightarrow> ret v)"

definition getUsername :: "world \<Rightarrow> string io" where
  "getUsername w =
     (if os_name w = ''nt'' then environ_get w ''USERNAME'' else environ_get w ''USER'')"

text \<open>\<^verbatim>\<open>docx.Document(templateFilename)\<close>: a fresh document read from the template file.\<close>

definition docx_Document :: "world \<Rightarrow> string \<Rightarrow> document io" where
  "docx_Document w filename =
     (case docx_files w filename of
        None \<Rightarrow> raise (PackageNotFoundError filename)
      | Some doc \<Rightarrow> ret doc)"

text \<open>
  python-docx, \<^verbatim>\<open>doc.add_paragraph(text, style=style)\<close>: a new paragraph with the text is
  appended to the body; a style other than \<^verbatim>\<open>None\<close> is then assigned to it as
  \<^verbatim>\<open>para.style = style\<close> does.
\<close>

definition add_paragraph :: "document \<Rightarrow> string \<Rightarrow> string option \<Rightarrow> document io" where
  "add_paragraph doc txt style =
     (let para = \<lparr>para_text = txt, para_style = None\<rparr> in
      case style of
        None \<Rightarrow> ret (doc\<lparr>paragraphs := paragraphs doc @ [para]\<rparr>)
      | Some name \<Rightarrow>
          bind_io (set_style (styles doc) para name) (\<lambda>para'.
          ret (doc\<lparr>paragraphs := paragraphs doc @ [para']\<rparr>)))"

text \<open>The dispatch on the row's command, lines 234 to 243.\<close>

definition applyCommand ::
  "document \<Rightarrow> string option \<Rightarrow> string option \<Rightarrow> string option \<Rightarrow> string option \<Rightarrow> document io" where
  "applyCommand doc command replace content style =
     (if truthy command then
        if str_in ''replace_paragraph'' (the command) then
          replaceParagraphInDoc doc replace content style
        else if str_in ''add_paragraph'' (the command) then
          (if truthy content then add_paragraph doc (the content) style else ret doc)
        else bind_io (emit (Unexpected (the command) content)) (\<lambda>_. ret doc)
      else ret doc)"

text \<open>
  The body of the loop over the rows, lines 229 to 243, on the values of the row's four
  cells. A command that passes the test of line 234 and is not a string makes the test
  \<^verbatim>\<open>"replace_paragraph" in command\<close> of line 237 raise \<^verbatim>\<open>TypeError\<close>: a number,
  a truth value or a date is not iterable.
\<close>

definition row_body :: "sheet \<Rightarrow> config \<Rightarrow> int \<Rightarrow> int \<Rightarrow> document \<Rightarrow> document io" where
  "row_body sh cfg contentColumn r doc =
     bind_io (sheet_cell sh r (commandColumn cfg)) (\<lambda>command.
     bind_io (sheet_cell sh r (replaceColumn cfg)) (\<lambda>replace.
     bind_io (sheet_cell sh r contentColumn) (\<lambda>content.
     bind_io (sheet_cell sh r (styleColumn cfg)) (\<lambda>style.
     if truthy_value command \<and> \<not> is_text command then raise TypeError
     else applyCommand doc (as_text command) (as_text replace) (as_text content)
            (as_text style)))))"

text \<open>
  \<^verbatim>\<open>for row in range(contentStartRow, sheet.max_row+1, 1)\<close>, line 228: the loop counter
  \<open>r\<close> runs while it is below \<open>max_row + 1\<close>.
\<close>

function rows_loop :: "sheet \<Rightarrow> config \<Rightarrow> int \<Rightarrow> int \<Rightarrow> document \<Rightarrow> document io" where
  "rows_loop sh cfg contentColumn r doc =
     (if r < max_row sh + 1 then
        bind_io (row_body sh cfg contentColumn r doc) (\<lambda>doc'.
        rows_loop sh cfg contentColumn (r + 1) doc')
      else ret doc)"
  by pat_completeness auto
termination
  by (relation "measure (\<lambda>(sh, cfg, contentColumn, r, doc). nat (max_row sh + 1 - r))") auto

declare rows_loop.simps [simp del]

text \<open>The body of the loop over the output files, lines 221 to 248.\<close>

definition generateOutputFile :: "world \<Rightarrow> sheet \<Rightarrow> config \<Rightarrow> string \<times> int \<Rightarrow> unit io" where
  "generateOutputFile w sh cfg pair =
     (case pair of (outputGeneratedFilenameWithTimestamp, contentColumn) \<Rightarrow>
        bind_io (emit (Generate outputGeneratedFilenameWithTimestamp (templateFilename cfg))) (\<lambda>_.
        bind_io (docx_Document w (templateFilename cfg)) (\<lambda>doc.
        bind_io (getUsername w) (\<lambda>username.
        bind_io (emit (Author username)) (\<lambda>_.
        bind_io (rows_loop sh cfg contentColumn (contentStartRow cfg) (doc\<lparr>author := username\<rparr>))
          (\<lambda>doc'.
        emit (Saved outputGeneratedFilenameWithTimestamp doc')))))))"

text \<open>\<^verbatim>\<open>for x in xs: body(x)\<close> for a body that returns nothing.\<close>

fun for_all :: "('a \<Rightarrow> unit io) \<Rightarrow> 'a list \<Rightarrow> unit io" where
  "for_all body [] = ret ()"
| "for_all body (x # xs) = bind_io (body x) (\<lambda>_. for_all body xs)"

text \<open>
  \<^verbatim>\<open>generateDocxFromXlsx(sheet, contentStartRow, ..., outputFilenames)\<close>, lines 186 to 248:
  the file names are stamped first, then paired with the content columns by \<^verbatim>\<open>zip\<close>.
\<close>

definition generateDocxFromXlsx :: "world \<Rightarrow> sheet \<Rightarrow> config \<Rightarrow> unit io" where
  "generateDocxFromXlsx w sh cfg =
     bind_io (appendTimestampToFilenames (clock w) 0 (outputFilenames cfg))
       (\<lambda>outputGeneratedFilenamesWithTimestamp.
     for_all (generateOutputFile w sh cfg)
       (zip outputGeneratedFilenamesWithTimestamp (contentColumns cfg)))"

section \<open>What the claims say, in terms of the document\<close>

text \<open>The rewriting of one paragraph that a completed replace operation amounts to.\<close>

definition assigns :: "string option \<Rightarrow> bool" where
  "assigns style \<longleftrightarrow> truthy style \<and> style \<noteq> Some ''None''"

definition rewritten :: "string \<Rightarrow> string option \<Rightarrow> string option \<Rightarrow> paragraph \<Rightarrow> paragraph" where
  "rewritten s content style p =
     (if str_in s (para_text p)
      then p\<lparr>para_text := (case content of None \<Rightarrow> [] | Some c \<Rightarrow> c),
             para_style := (if assigns style then style else para_style p)\<rparr>
      else p)"

text \<open>A function applied to every paragraph of a document, wherever it is.\<close>

definition map_cell :: "(paragraph \<Rightarrow> paragraph) \<Rightarrow> cell \<Rightarrow> cell" where
  "map_cell f c = c\<lparr>cell_paragraphs := map f (cell_paragraphs c)\<rparr>"

definition map_row :: "(paragraph \<Rightarrow> paragraph) \<Rightarrow> row \<Rightarrow> row" where
  "map_row f r = r\<lparr>cells := map (map_cell f) (cells r)\<rparr>"

definition map_table :: "(paragraph \<Rightarrow> paragraph) \<Rightarrow> table \<Rightarrow> table" where
  "map_table f t = t\<lparr>rows := map (map_row f) (rows t)\<rparr>"

definition map_header_footer :: "(paragraph \<Rightarrow> paragraph) \<Rightarrow> header_footer \<Rightarrow> header_footer" where
  "map_header_footer f h =
     h\<lparr>hf_paragraphs := map f (hf_paragraphs h), hf_tables := map (map_table f) (hf_tables h)\<rparr>"

definition map_section :: "(paragraph \<Rightarrow> paragraph) \<Rightarrow> section \<Rightarrow> section" where
  "map_section f s =
     s\<lparr>header := map_header_footer f (header s), footer := map_header_footer f (footer s)\<rparr>"

definition map_paragraphs :: "(paragraph \<Rightarrow> paragraph) \<Rightarrow> document \<Rightarrow> document" where
  "map_paragraphs f doc =
     doc\<lparr>paragraphs := map f (paragraphs doc),
         tables := map (map_table f) (tables doc),
         sections := map (map_section f) (sections doc)\<rparr>"

text \<open>
  The paragraph locations of a document in the order of the specification, each with the
  tag of its zone: the body's paragraphs; the paragraphs of the body's tables, by table,
  row and cell; then for each section its header's paragraphs, the paragraphs of its
  header's tables, its footer's paragraphs and the paragraphs of its footer's tables.
\<close>

definition row_paragraphs :: "row \<Rightarrow> paragraph list" where
  "row_paragraphs r = concat (map cell_paragraphs (cells r))"

definition table_paragraphs :: "table \<Rightarrow> paragraph list" where
  "table_paragraphs t = concat (map row_paragraphs (rows t))"

definition section_locations :: "section \<Rightarrow> (string \<times> paragraph) list" where
  "section_locations s =
     map (Pair ''section.header'') (hf_paragraphs (header s)) @
     map (Pair ''section.header.tables'') (concat (map table_paragraphs (hf_tables (header s)))) @
     map (Pair ''section.footer'') (hf_paragraphs (footer s)) @
     map (Pair ''section.footer.tables'') (concat (map table_paragraphs (hf_tables (footer s))))"

definition paragraphLocations :: "document \<Rightarrow> (string \<times> paragraph) list" where
  "paragraphLocations doc =
     map (Pair ''doc.paragraphs'') (paragraphs doc) @
     map (Pair ''doc.tables'') (concat (map table_paragraphs (tables doc))) @
     concat (map section_locations (sections doc))"

text \<open>The files a trace has saved, in order.\<close>

fun saved_files :: "event list \<Rightarrow> (string \<times> document) list" where
  "saved_files [] = []"
| "saved_files (Saved filename doc # evs) = (filename, doc) # saved_files evs"
| "saved_files (_ # evs) = saved_files evs"

text \<open>A loop body run on the elements of a list in turn, each on the document the last left.\<close>

fun run_rows :: "('r \<Rightarrow> 'd \<Rightarrow> 'd io) \<Rightarrow> 'r list \<Rightarrow> 'd \<Rightarrow> 'd io" where
  "run_rows body [] doc = ret doc"
| "run_rows body (r # rs) doc = bind_io (body r doc) (\<lambda>doc'. run_rows body rs doc')"

text \<open>
  Visiting one location: the call of \<^verbatim>\<open>replaceInParagraph\<close> on its paragraph with the
  context string of its zone.
\<close>

definition visit ::
  "string list \<Rightarrow> string option \<Rightarrow> string option \<Rightarrow> string option \<Rightarrow> string \<times> paragraph
     \<Rightarrow> paragraph io" where
  "visit defined replace content style loc =
     replaceInParagraph defined (snd loc) replace content style (fst loc)"

text \<open>
  Four ways a loop body relates to a pure description of it: every result it returns is
  the one a function gives; it always returns; its trace and results are those of an
  inner body run once on each element of a flattened list, in the order of that list; and
  it raises, silently, as soon as that list has an element.
\<close>

definition refines :: "('a \<Rightarrow> 'a io) \<Rightarrow> ('a \<Rightarrow> 'a) \<Rightarrow> bool" where
  "refines body f \<longleftrightarrow> (\<forall>x y. snd (body x) = Inr y \<longrightarrow> y = f x)"

definition total_on :: "('a \<Rightarrow> 'a io) \<Rightarrow> bool" where
  "total_on body \<longleftrightarrow> (\<forall>x. \<exists>y. snd (body x) = Inr y)"

definition visits ::
  "('a \<Rightarrow> 'a io) \<Rightarrow> ('a \<Rightarrow> 'q list) \<Rightarrow> ('q \<Rightarrow> event list) \<Rightarrow> ('q \<Rightarrow> 'z) \<Rightarrow> ('q \<Rightarrow> 'z) \<Rightarrow> bool" where
  "visits outer flat tr_of res_of wrap \<longleftrightarrow>
     (\<forall>x tr x'. outer x = (tr, Inr x') \<longrightarrow>
        tr = concat (map tr_of (flat x)) \<and> map wrap (flat x') = map res_of (flat x))"

definition raises_at_first :: "('a \<Rightarrow> 'a io) \<Rightarrow> ('a \<Rightarrow> 'q list) \<Rightarrow> error \<Rightarrow> bool" where
  "raises_at_first outer flat e \<longleftrightarrow>
     (\<forall>x. outer x = (if flat x = [] then ret x else raise e))"

text \<open>
  A body whose only exception is \<open>e\<close>, and a body that saves no file.
\<close>

definition fails_only :: "('a \<Rightarrow> 'b io) \<Rightarrow> error \<Rightarrow> bool" where
  "fails_only body e \<longleftrightarrow> (\<forall>x e'. snd (body x) = Inl e' \<longrightarrow> e' = e)"

definition saves_nothing :: "('a \<Rightarrow> 'b io) \<Rightarrow> bool" where
  "saves_nothing body \<longleftrightarrow> (\<forall>x. saved_files (fst (body x)) = [])"

text \<open>
  The stamped names of a list of file names, the \<open>i\<close>-th name stamped with the clock's
  reading \<open>k + i\<close>; and a broken-down time as \<^verbatim>\<open>localtime()\<close> gives it, in a year of
  four digits.
\<close>

definition stamped :: "(nat \<Rightarrow> tm) \<Rightarrow> nat \<Rightarrow> string list \<Rightarrow> string list" where
  "stamped clk k filenames =
     map (\<lambda>(i, filename). appendTimestampToFilename (clk i) filename)
       (zip [k..<k + length filenames] filenames)"

definition valid_tm :: "tm \<Rightarrow> bool" where
  "valid_tm t \<longleftrightarrow>
     1000 \<le> tm_year t \<and> tm_year t \<le> 9999 \<and> 1 \<le> tm_mon t \<and> tm_mon t \<le> 12 \<and>
     1 \<le> tm_mday t \<and> tm_mday t \<le> 31 \<and> tm_hour t \<le> 23 \<and> tm_min t \<le> 59 \<and> tm_sec t \<le> 61"





definition content_text :: "string option \<Rightarrow> string" where
  "content_text content = (case content of None \<Rightarrow> [] | Some c \<Rightarrow> c)"

text \<open>
  The instant at which a file name is stamped. \<^verbatim>\<open>time.strftime\<close> called without a
  time formats \<^verbatim>\<open>time.localtime()\<close>, the broken-down local time of the instant, which
  counts whole seconds; the instant itself, \<^verbatim>\<open>time.time()\<close>, has a fraction of a
  second besides. An instant is held as its local time and that fraction, in microseconds.
\<close>

record instant =
  localtime :: tm
  microsecond :: nat

text \<open>
  The pairs of a stamped file name and a content column that \<^verbatim>\<open>zip\<close> is claimed to
  yield: position by position, as many as the shorter list has, the \<open>i\<close>-th file name
  stamped with the \<open>i\<close>-th reading of the clock; their number; and a trace without the
  directories made.
\<close>

definition paired :: "(nat \<Rightarrow> tm) \<Rightarrow> config \<Rightarrow> (string \<times> int) list" where
  "paired clk cfg =
     map (\<lambda>i. (appendTimestampToFilename (clk i) (outputFilenames cfg ! i),
                contentColumns cfg ! i))
       [0..<min (length (outputFilenames cfg)) (length (contentColumns cfg))]"

definition pair_count :: "config \<Rightarrow> nat" where
  "pair_count cfg = min (length (outputFilenames cfg)) (length (contentColumns cfg))"

definition without_makedirs :: "event list \<Rightarrow> event list" where
  "without_makedirs evs = filter (\<lambda>e. case e of MakeDirs d \<Rightarrow> False | _ \<Rightarrow> True) evs"

section \<open>Examples\<close>

text \<open>
  A body with two paragraphs and a table, and one section with a header and a footer;
  and a document of one paragraph.
\<close>

definition example_table :: table where
  "example_table =
     \<lparr>rows = [\<lparr>cells = [\<lparr>cell_paragraphs = [\<lparr>para_text = ''{{NAME}}'', para_style = None\<rparr>]\<rparr>,
                        \<lparr>cell_paragraphs = [\<lparr>para_text = ''cell'', para_style = None\<rparr>]\<rparr>]\<rparr>]\<rparr>"

definition example_doc :: document where
  "example_doc =
     \<lparr>paragraphs = [\<lparr>para_text = ''Dear {{NAME}},'', para_style = Some ''Greeting''\<rparr>,
                    \<lparr>para_text = ''Hello'', para_style = None\<rparr>],
      tables = [example_table],
      sections = [\<lparr>header = \<lparr>hf_paragraphs = [\<lparr>para_text = ''To {{NAME}}'', para_style = None\<rparr>],
                             hf_tables = []\<rparr>,
                   footer = \<lparr>hf_paragraphs = [\<lparr>para_text = ''page'', para_style = None\<rparr>],
                             hf_tables = [example_table]\<rparr>\<rparr>],
      styles = [''Normal'', ''Signature''],
      author = []\<rparr>"

definition small_doc :: document where
  "small_doc =
     \<lparr>paragraphs = [\<lparr>para_text = ''Hello'', para_style = None\<rparr>],
      tables = [], sections = [], styles = [''Normal''], author = []\<rparr>"

text \<open>
  A worksheet of three rows, the first a heading: row 2 has no command, row 3 has the
  command \<open>foo\<close>. The configuration is the script's default one, with output files in a
  directory.
\<close>

definition example_sheet :: sheet where
  "example_sheet =
     \<lparr>max_row = 3,
      cell_value = (\<lambda>r c. if r = 3 \<and> c = 1 then Text ''foo''
                         else if r = 3 \<and> c = 4 then Text ''Some text''
                         else Empty)\<rparr>"

text \<open>The same worksheet with a fourth row, whose command cell holds the number 5.\<close>

definition number_sheet :: sheet where
  "number_sheet =
     \<lparr>max_row = 4,
      cell_value = (\<lambda>r c. if r = 3 \<and> c = 1 then Text ''foo''
                         else if r = 3 \<and> c = 4 then Text ''Some text''
                         else if r = 4 \<and> c = 1 then Number 5
                         else Empty)\<rparr>"

definition example_config :: config where
  "example_config =
     \<lparr>contentStartRow = 2, commandColumn = 1, styleColumn = 2, replaceColumn = 3,
      contentColumns = [4, 5, 6],
      templateFilename = ''template.docx'',
      outputFilenames = [''out/a.docx'', ''out/b.docx'']\<rparr>"

text \<open>
  A worksheet whose row 2 replaces the paragraphs with \<open>Hello\<close> in them and asks for a
  style the one-paragraph document does not define; the time of the example in the
  script's docstrings; and an environment with a user, that clock and one template file.
\<close>

definition style_sheet :: sheet where
  "style_sheet =
     \<lparr>max_row = 2,
      cell_value = (\<lambda>r c. if r = 2 \<and> c = 1 then Text ''replace_paragraph''
                         else if r = 2 \<and> c = 2 then Text ''Missing''
                         else if r = 2 \<and> c = 3 then Text ''Hello''
                         else if r = 2 \<and> c = 4 then Text ''Bye''
                         else Empty)\<rparr>"

definition example_time :: tm where
  "example_time =
     \<lparr>tm_year = 2020, tm_mon = 8, tm_mday = 19, tm_hour = 15, tm_min = 12, tm_sec = 21\<rparr>"

definition example_world :: world where
  "example_world =
     \<lparr>os_name = ''posix'',
      environ = [''USER'' \<mapsto> ''ernst''],
      clock = (\<lambda>k. example_time),
      docx_files = [''template.docx'' \<mapsto> small_doc]\<rparr>"

text \<open>
  The configuration the script writes when it finds none (lines 254 to 284), whose output
  files have no directory; and the example configuration with a third output file.
\<close>

definition default_config :: config where
  "default_config =
     \<lparr>contentStartRow = 2, commandColumn = 1, styleColumn = 2, replaceColumn = 3,
      contentColumns = [4, 5, 6],
      templateFilename = ''src/xlsx2docx-byColumns_TemplateExample.docx'',
      outputFilenames = [''generatedDataFile1.docx'', ''generatedDataFile2.docx'',
                         ''generatedDataFile3.docx'']\<rparr>"

definition three_files_config :: config where
  "three_files_config =
     example_config\<lparr>contentColumns := [4, 5],
                    outputFilenames := [''out/a.docx'', ''out/b.docx'', ''out/c.docx'']\<rparr>"




text \<open>
  Two instants within the second of the docstring's example, half a second apart, and an
  instant one second later.
\<close>

definition example_instant :: instant where
  "example_instant = \<lparr>localtime = example_time, microsecond = 200000\<rparr>"

definition same_second_instant :: instant where
  "same_second_instant = \<lparr>localtime = example_time, microsecond = 700000\<rparr>"

definition next_second_instant :: instant where
  "next_second_instant = \<lparr>localtime = example_time\<lparr>tm_sec := 22\<rparr>, microsecond = 200000\<rparr>"


section \<open>The effect monad\<close>

lemma bind_io_Inr [simp]: "bind_io (tr, Inr x) f = (tr @ fst (f x), snd (f x))"
  by (simp add: bind_io_def)

lemma bind_io_Inl [simp]: "bind_io (tr, Inl e) f = (tr, Inl e)"
  by (simp add: bind_io_def)

lemma bind_io_ret [simp]: "bind_io (ret x) f = f x"
  by (simp add: ret_def)

lemma bind_io_raise [simp]: "bind_io (raise e) f = raise e"
  by (simp add: raise_def)

lemma bind_io_emit [simp]: "bind_io (emit ev) f = (ev # fst (f ()), snd (f ()))"
  by (simp add: emit_def)

lemma fst_ret [simp]: "fst (ret x) = []"
  by (simp add: ret_def)

lemma snd_ret [simp]: "snd (ret x) = Inr x"
  by (simp add: ret_def)

lemma fst_raise [simp]: "fst (raise e) = []"
  by (simp add: raise_def)

lemma snd_raise [simp]: "snd (raise e) = Inl e"
  by (simp add: raise_def)

lemma snd_bind_io_Inr_iff:
  "snd (bind_io m f) = Inr y \<longleftrightarrow> (\<exists>x. snd m = Inr x \<and> snd (f x) = Inr y)"
  by (cases m; cases "snd m") (auto simp: bind_io_def)

lemma bind_io_Inr_iff:
  "bind_io m f = (tr, Inr y) \<longleftrightarrow>
     (\<exists>tr1 x tr2. m = (tr1, Inr x) \<and> f x = (tr2, Inr y) \<and> tr = tr1 @ tr2)"
proof (cases m)
  case (Pair tr1 res)
  show ?thesis
  proof (cases res)
    case (Inl e)
    with Pair show ?thesis by simp
  next
    case (Inr x)
    with Pair show ?thesis by (cases "f x") auto
  qed
qed

lemma snd_bind_io_Inl:
  "snd m = Inl e \<Longrightarrow> snd (bind_io m f) = Inl e"
  by (simp add: bind_io_def)

lemma bind_io_assoc: "bind_io (bind_io m f) g = bind_io m (\<lambda>x. bind_io (f x) g)"
  by (cases m; cases "snd m") (auto simp: bind_io_def split: sum.splits)

section \<open>Substrings\<close>

lemma str_in_Nil [simp]: "str_in [] t"
  by (cases t) simp_all

lemma str_in_iff: "str_in s t \<longleftrightarrow> (\<exists>u v. t = u @ s @ v)"
proof (induction t)
  case Nil
  show ?case by auto
next
  case (Cons c cs)
  have pre: "take (length s) (c # cs) = s \<longleftrightarrow> (\<exists>v. c # cs = s @ v)"
    by (metis append_eq_conv_conj append_take_drop_id)
  show ?case
  proof
    assume "str_in s (c # cs)"
    then consider "take (length s) (c # cs) = s" | "str_in s cs" by auto
    then show "\<exists>u v. c # cs = u @ s @ v"
    proof cases
      case 1
      with pre obtain v where "c # cs = s @ v" by blast
      then have "c # cs = [] @ s @ v" by simp
      then show ?thesis by blast
    next
      case 2
      with Cons.IH obtain u v where "cs = u @ s @ v" by blast
      then have "c # cs = (c # u) @ s @ v" by simp
      then show ?thesis by blast
    qed
  next
    assume "\<exists>u v. c # cs = u @ s @ v"
    then obtain u v where uv: "c # cs = u @ s @ v" by blast
    show "str_in s (c # cs)"
    proof (cases u)
      case Nil
      with uv have "\<exists>v. c # cs = s @ v" by auto
      with pre have "take (length s) (c # cs) = s" by blast
      then show ?thesis by simp
    next
      case (Cons a u')
      with uv have "cs = u' @ s @ v" by simp
      with Cons.IH show ?thesis by auto
    qed
  qed
qed

section \<open>The replace operation as a rewriting of every paragraph\<close>

lemma for_each_refines: "refines body f \<Longrightarrow> refines (for_each body) (map f)"
  unfolding refines_def
proof (intro allI impI)
  fix xs ys
  assume r: "\<forall>x y. snd (body x) = Inr y \<longrightarrow> y = f x" and "snd (for_each body xs) = Inr ys"
  then show "ys = map f xs"
    by (induction xs arbitrary: ys) (auto simp: snd_bind_io_Inr_iff)
qed

lemma for_each_total: "total_on body \<Longrightarrow> total_on (for_each body)"
  unfolding total_on_def
proof
  fix xs
  assume t: "\<forall>x. \<exists>y. snd (body x) = Inr y"
  show "\<exists>ys. snd (for_each body xs) = Inr ys"
  proof (induction xs)
    case Nil show ?case by simp
  next
    case (Cons x xs)
    from t obtain y where "snd (body x) = Inr y" by blast
    with Cons show ?case by (auto simp: snd_bind_io_Inr_iff)
  qed
qed

lemma in_cell_refines: "refines body f \<Longrightarrow> refines (in_cell body) (map_cell f)"
  using for_each_refines [of body f]
  by (auto simp: refines_def in_cell_def map_cell_def snd_bind_io_Inr_iff)

lemma in_row_refines: "refines body f \<Longrightarrow> refines (in_row body) (map_row f)"
  using for_each_refines [OF in_cell_refines, of body f]
  by (auto simp: refines_def in_row_def map_row_def snd_bind_io_Inr_iff)

lemma in_table_refines: "refines body f \<Longrightarrow> refines (in_table body) (map_table f)"
  using for_each_refines [OF in_row_refines, of body f]
  by (auto simp: refines_def in_table_def map_table_def snd_bind_io_Inr_iff)

lemma in_cell_total: "total_on body \<Longrightarrow> total_on (in_cell body)"
  using for_each_total [of body]
  by (auto simp: total_on_def in_cell_def snd_bind_io_Inr_iff)

lemma in_row_total: "total_on body \<Longrightarrow> total_on (in_row body)"
  using for_each_total [OF in_cell_total, of body]
  by (auto simp: total_on_def in_row_def snd_bind_io_Inr_iff)

lemma in_table_total: "total_on body \<Longrightarrow> total_on (in_table body)"
  using for_each_total [OF in_row_total, of body]
  by (auto simp: total_on_def in_table_def snd_bind_io_Inr_iff)

lemma replaceInParagraph_refines:
  "refines (\<lambda>p. replaceInParagraph defined p (Some s) content style ctx) (rewritten s content style)"
  by (cases style) (auto simp: refines_def replaceInParagraph_def rewritten_def assigns_def set_text_def
      set_style_def Let_def emit_def ret_def raise_def split: if_splits)

lemma replaceInParagraph_total:
  "\<not> assigns style \<or> the style \<in> set defined \<Longrightarrow>
   total_on (\<lambda>p. replaceInParagraph defined p (Some s) content style ctx)"
  by (auto simp: total_on_def replaceInParagraph_def assigns_def set_text_def
      set_style_def Let_def emit_def ret_def raise_def split: if_splits)


lemma for_each_refinesD:
  "refines body f \<Longrightarrow> snd (for_each body xs) = Inr ys \<Longrightarrow> ys = map f xs"
  using for_each_refines [of body f] by (simp add: refines_def)

lemma for_each_totalD: "total_on body \<Longrightarrow> \<exists>ys. snd (for_each body xs) = Inr ys"
  using for_each_total [of body] by (simp add: total_on_def)

lemma in_section_refines:
  "refines (in_section defined (Some s) content style) (map_section (rewritten s content style))"
  unfolding refines_def
proof (intro allI impI)
  fix x y
  let ?R = "\<lambda>ctx p. replaceInParagraph defined p (Some s) content style ctx"
  let ?f = "rewritten s content style"
  assume "snd (in_section defined (Some s) content style x) = Inr y"
  then obtain a b c d where
    a: "snd (for_each (?R ''section.header'') (hf_paragraphs (header x))) = Inr a" and
    b: "snd (for_each (in_table (?R ''section.header.tables'')) (hf_tables (header x))) = Inr b" and
    c: "snd (for_each (?R ''section.footer'') (hf_paragraphs (footer x))) = Inr c" and
    d: "snd (for_each (in_table (?R ''section.footer.tables'')) (hf_tables (footer x))) = Inr d" and
    y: "y = x\<lparr>header := (header x)\<lparr>hf_paragraphs := a, hf_tables := b\<rparr>,
              footer := (footer x)\<lparr>hf_paragraphs := c, hf_tables := d\<rparr>\<rparr>"
    by (auto simp: in_section_def snd_bind_io_Inr_iff)
  have "a = map ?f (hf_paragraphs (header x))"
    using for_each_refinesD [OF replaceInParagraph_refines a] .
  moreover have "b = map (map_table ?f) (hf_tables (header x))"
    using for_each_refinesD [OF in_table_refines [OF replaceInParagraph_refines] b] .
  moreover have "c = map ?f (hf_paragraphs (footer x))"
    using for_each_refinesD [OF replaceInParagraph_refines c] .
  moreover have "d = map (map_table ?f) (hf_tables (footer x))"
    using for_each_refinesD [OF in_table_refines [OF replaceInParagraph_refines] d] .
  ultimately show "y = map_section ?f x"
    using y by (simp add: map_section_def map_header_footer_def)
qed

lemma in_section_total:
  assumes ok: "\<not> assigns style \<or> the style \<in> set defined"
  shows "total_on (in_section defined (Some s) content style)"
  unfolding total_on_def
proof
  fix x :: "section"
  let ?R = "\<lambda>ctx p. replaceInParagraph defined p (Some s) content style ctx"
  note t = replaceInParagraph_total [OF ok]
  obtain a where "snd (for_each (?R ''section.header'') (hf_paragraphs (header x))) = Inr a"
    using for_each_totalD [OF t] by blast
  moreover obtain b where
    "snd (for_each (in_table (?R ''section.header.tables'')) (hf_tables (header x))) = Inr b"
    using for_each_totalD [OF in_table_total [OF t]] by blast
  moreover obtain c where "snd (for_each (?R ''section.footer'') (hf_paragraphs (footer x))) = Inr c"
    using for_each_totalD [OF t] by blast
  moreover obtain d where
    "snd (for_each (in_table (?R ''section.footer.tables'')) (hf_tables (footer x))) = Inr d"
    using for_each_totalD [OF in_table_total [OF t]] by blast
  ultimately show "\<exists>y. snd (in_section defined (Some s) content style x) = Inr y"
    by (simp add: in_section_def snd_bind_io_Inr_iff)
qed

lemma replaceParagraphInDoc_refines:
  assumes "snd (replaceParagraphInDoc doc (Some s) content style) = Inr doc'"
  shows "doc' = map_paragraphs (rewritten s content style) doc"
proof -
  let ?R = "\<lambda>ctx p. replaceInParagraph (styles doc) p (Some s) content style ctx"
  let ?f = "rewritten s content style"
  from assms obtain a b c where
    a: "snd (for_each (?R ''doc.paragraphs'') (paragraphs doc)) = Inr a" and
    b: "snd (for_each (in_table (?R ''doc.tables'')) (tables doc)) = Inr b" and
    c: "snd (for_each (in_section (styles doc) (Some s) content style) (sections doc)) = Inr c" and
    d: "doc' = doc\<lparr>paragraphs := a, tables := b, sections := c\<rparr>"
    by (auto simp: replaceParagraphInDoc_def snd_bind_io_Inr_iff)
  have "a = map ?f (paragraphs doc)"
    using for_each_refinesD [OF replaceInParagraph_refines a] .
  moreover have "b = map (map_table ?f) (tables doc)"
    using for_each_refinesD [OF in_table_refines [OF replaceInParagraph_refines] b] .
  moreover have "c = map (map_section ?f) (sections doc)"
    using for_each_refinesD [OF in_section_refines c] .
  ultimately show ?thesis
    using d by (simp add: map_paragraphs_def)
qed

lemma replaceParagraphInDoc_total:
  assumes ok: "\<not> assigns style \<or> the style \<in> set (styles doc)"
  shows "\<exists>doc'. snd (replaceParagraphInDoc doc (Some s) content style) = Inr doc'"
proof -
  let ?R = "\<lambda>ctx p. replaceInParagraph (styles doc) p (Some s) content style ctx"
  note t = replaceInParagraph_total [OF ok]
  obtain a where "snd (for_each (?R ''doc.paragraphs'') (paragraphs doc)) = Inr a"
    using for_each_totalD [OF t] by blast
  moreover obtain b where "snd (for_each (in_table (?R ''doc.tables'')) (tables doc)) = Inr b"
    using for_each_totalD [OF in_table_total [OF t]] by blast
  moreover obtain c where
    "snd (for_each (in_section (styles doc) (Some s) content style) (sections doc)) = Inr c"
    using for_each_totalD [OF in_section_total [OF ok]] by blast
  ultimately show ?thesis
    by (simp add: replaceParagraphInDoc_def snd_bind_io_Inr_iff)
qed

text \<open>
  Claim C1. For every document, match string \<open>s\<close> and content, a replace operation that
  returns has rewritten every paragraph of the document (body, body tables, section headers
  and footers and their tables) whose text contains \<open>s\<close> as a substring to the content, an
  absent content giving the empty text, and has left every other paragraph as it was; every
  match is rewritten, not only the first. The operation returns whenever it assigns no
  style or the style to assign is defined.
\<close>

theorem replace_rewrites_every_matching_paragraph:
  "(\<not> assigns style \<or> the style \<in> set (styles doc) \<longrightarrow>
      snd (replaceParagraphInDoc doc (Some s) content style) =
      Inr (map_paragraphs (rewritten s content style) doc)) \<and>
   (\<forall>doc'. snd (replaceParagraphInDoc doc (Some s) content style) = Inr doc' \<longrightarrow>
      doc' = map_paragraphs (rewritten s content style) doc) \<and>
   (\<forall>p::paragraph. str_in s (para_text p) \<longrightarrow>
      para_text (rewritten s content style p) = (case content of None \<Rightarrow> [] | Some c \<Rightarrow> c)) \<and>
   (\<forall>p::paragraph. \<not> str_in s (para_text p) \<longrightarrow> rewritten s content style p = p) \<and>
   (\<forall>t. str_in s t \<longleftrightarrow> (\<exists>u v. t = u @ s @ v))"
proof (intro conjI allI impI)
  assume ok: "\<not> assigns style \<or> the style \<in> set (styles doc)"
  from replaceParagraphInDoc_total [OF ok] obtain doc' where
    "snd (replaceParagraphInDoc doc (Some s) content style) = Inr doc'" by blast
  with replaceParagraphInDoc_refines [OF this]
  show "snd (replaceParagraphInDoc doc (Some s) content style) =
        Inr (map_paragraphs (rewritten s content style) doc)" by simp
next
  fix doc'
  assume "snd (replaceParagraphInDoc doc (Some s) content style) = Inr doc'"
  then show "doc' = map_paragraphs (rewritten s content style) doc"
    by (rule replaceParagraphInDoc_refines)
next
  fix p :: "paragraph" assume "str_in s (para_text p)"
  then show "para_text (rewritten s content style p) = (case content of None \<Rightarrow> [] | Some c \<Rightarrow> c)"
    by (simp add: rewritten_def)
next
  fix p :: "paragraph" assume "\<not> str_in s (para_text p)"
  then show "rewritten s content style p = p" by (simp add: rewritten_def)
next
  fix t show "str_in s t \<longleftrightarrow> (\<exists>u v. t = u @ s @ v)" by (rule str_in_iff)
qed

theorem replace_rewrites_every_matching_paragraph_witness:
  "\<not> assigns (Some ''None'') \<and>
   snd (replaceParagraphInDoc example_doc (Some ''{{NAME}}'') (Some ''Alice'') (Some ''None'')) =
   Inr (example_doc
     \<lparr>paragraphs := [\<lparr>para_text = ''Alice'', para_style = Some ''Greeting''\<rparr>,
                     \<lparr>para_text = ''Hello'', para_style = None\<rparr>],
      tables := [\<lparr>rows = [\<lparr>cells = [\<lparr>cell_paragraphs = [\<lparr>para_text = ''Alice'', para_style = None\<rparr>]\<rparr>,
                        \<lparr>cell_paragraphs = [\<lparr>para_text = ''cell'', para_style = None\<rparr>]\<rparr>]\<rparr>]\<rparr>],
      sections := [\<lparr>header = \<lparr>hf_paragraphs = [\<lparr>para_text = ''Alice'', para_style = None\<rparr>],
                             hf_tables = []\<rparr>,
                   footer = \<lparr>hf_paragraphs = [\<lparr>para_text = ''page'', para_style = None\<rparr>],
                             hf_tables = [\<lparr>rows = [\<lparr>cells = [\<lparr>cell_paragraphs = [\<lparr>para_text = ''Alice'', para_style = None\<rparr>]\<rparr>,
                        \<lparr>cell_paragraphs = [\<lparr>para_text = ''cell'', para_style = None\<rparr>]\<rparr>]\<rparr>]\<rparr>]\<rparr>\<rparr>]\<rparr>)"
proof -
  have h: "\<not> assigns (Some ''None'')"
    by (simp add: assigns_def)
  have m: "map_paragraphs (rewritten ''{{NAME}}'' (Some ''Alice'') (Some ''None'')) example_doc =
    example_doc
     \<lparr>paragraphs := [\<lparr>para_text = ''Alice'', para_style = Some ''Greeting''\<rparr>,
                     \<lparr>para_text = ''Hello'', para_style = None\<rparr>],
      tables := [\<lparr>rows = [\<lparr>cells = [\<lparr>cell_paragraphs = [\<lparr>para_text = ''Alice'', para_style = None\<rparr>]\<rparr>,
                        \<lparr>cell_paragraphs = [\<lparr>para_text = ''cell'', para_style = None\<rparr>]\<rparr>]\<rparr>]\<rparr>],
      sections := [\<lparr>header = \<lparr>hf_paragraphs = [\<lparr>para_text = ''Alice'', para_style = None\<rparr>],
                             hf_tables = []\<rparr>,
                   footer = \<lparr>hf_paragraphs = [\<lparr>para_text = ''page'', para_style = None\<rparr>],
                             hf_tables = [\<lparr>rows = [\<lparr>cells = [\<lparr>cell_paragraphs = [\<lparr>para_text = ''Alice'', para_style = None\<rparr>]\<rparr>,
                        \<lparr>cell_paragraphs = [\<lparr>para_text = ''cell'', para_style = None\<rparr>]\<rparr>]\<rparr>]\<rparr>]\<rparr>\<rparr>]\<rparr>"
    by (simp add: assigns_def example_doc_def example_table_def map_paragraphs_def
        map_section_def map_header_footer_def map_table_def map_row_def map_cell_def
        rewritten_def)
  from replace_rewrites_every_matching_paragraph
    [of "Some ''None''" example_doc "''{{NAME}}''" "Some ''Alice''", THEN conjunct1] h
  have "snd (replaceParagraphInDoc example_doc (Some ''{{NAME}}'') (Some ''Alice'') (Some ''None'')) =
        Inr (map_paragraphs (rewritten ''{{NAME}}'' (Some ''Alice'') (Some ''None'')) example_doc)"
    by blast
  with h m show ?thesis by simp
qed

section \<open>The order of the traversal\<close>

lemma visitsD:
  "visits outer flat tr_of res_of wrap \<Longrightarrow> outer x = (tr, Inr x') \<Longrightarrow>
   tr = concat (map tr_of (flat x)) \<and> map wrap (flat x') = map res_of (flat x)"
  by (simp add: visits_def)

lemma visits_body: "visits body (\<lambda>p. [p]) (\<lambda>p. fst (body p)) (\<lambda>p. snd (body p)) Inr"
  by (auto simp: visits_def)

lemma visits_for_each:
  assumes v: "visits outer flat tr_of res_of wrap"
  shows "visits (for_each outer) (\<lambda>xs. concat (map flat xs)) tr_of res_of wrap"
  unfolding visits_def
proof (intro allI impI)
  fix xs tr ys
  assume "for_each outer xs = (tr, Inr ys)"
  then show "tr = concat (map tr_of (concat (map flat xs))) \<and>
             map wrap (concat (map flat ys)) = map res_of (concat (map flat xs))"
  proof (induction xs arbitrary: tr ys)
    case Nil
    then show ?case by (simp add: ret_def)
  next
    case (Cons x xs)
    from Cons.prems obtain tr1 x' tr2 xs' where
      x: "outer x = (tr1, Inr x')" and xs: "for_each outer xs = (tr2, Inr xs')" and
      tr: "tr = tr1 @ tr2" and ys: "ys = x' # xs'"
      by (auto simp: bind_io_Inr_iff ret_def)
    from visitsD [OF v x] Cons.IH [OF xs] tr ys show ?case by simp
  qed
qed

lemma visits_paragraphs:
  "visits (for_each body) (\<lambda>ps. ps) (\<lambda>p. fst (body p)) (\<lambda>p. snd (body p)) Inr"
  using visits_for_each [OF visits_body, of body] by (simp add: visits_def)

lemma visits_in_cell:
  "visits (in_cell body) cell_paragraphs (\<lambda>p. fst (body p)) (\<lambda>p. snd (body p)) Inr"
  using visits_paragraphs [of body]
  by (auto simp: visits_def in_cell_def bind_io_Inr_iff ret_def)

lemma visits_in_row:
  "visits (in_row body) row_paragraphs (\<lambda>p. fst (body p)) (\<lambda>p. snd (body p)) Inr"
  using visits_for_each [OF visits_in_cell, of body]
  by (auto simp: visits_def in_row_def row_paragraphs_def bind_io_Inr_iff ret_def)

lemma visits_in_table:
  "visits (in_table body) table_paragraphs (\<lambda>p. fst (body p)) (\<lambda>p. snd (body p)) Inr"
  using visits_for_each [OF visits_in_row, of body]
  by (auto simp: visits_def in_table_def table_paragraphs_def bind_io_Inr_iff ret_def)

lemma visits_tables:
  "visits (for_each (in_table body)) (\<lambda>ts. concat (map table_paragraphs ts))
     (\<lambda>p. fst (body p)) (\<lambda>p. snd (body p)) Inr"
  by (rule visits_for_each [OF visits_in_table])


lemma visits_zone:
  assumes "visits outer flat (\<lambda>p. fst (replaceInParagraph defined p replace content style c))
             (\<lambda>p. snd (replaceInParagraph defined p replace content style c)) Inr"
    and "outer x = (tr, Inr x')"
  shows "tr = concat (map (\<lambda>loc. fst (visit defined replace content style loc))
                       (map (Pair c) (flat x))) \<and>
         map (apsnd Inr) (map (Pair c) (flat x')) =
         map (\<lambda>loc. (fst loc, snd (visit defined replace content style loc)))
           (map (Pair c) (flat x))"
proof -
  from visitsD [OF assms] have
    tr: "tr = concat (map (\<lambda>p. fst (replaceInParagraph defined p replace content style c)) (flat x))"
    and res: "map Inr (flat x') =
              map (\<lambda>p. snd (replaceInParagraph defined p replace content style c)) (flat x)"
    by simp_all
  have "map (apsnd Inr) (map (Pair c) (flat x')) = map (Pair c) (map Inr (flat x'))"
    by simp
  also have "\<dots> = map (\<lambda>loc. (fst loc, snd (visit defined replace content style loc)))
                     (map (Pair c) (flat x))"
    unfolding res by (simp add: visit_def)
  finally show ?thesis
    using tr by (simp add: visit_def o_def)
qed

lemma visits_in_section:
  "visits (in_section defined replace content style) section_locations
     (\<lambda>loc. fst (visit defined replace content style loc))
     (\<lambda>loc. (fst loc, snd (visit defined replace content style loc)))
     (apsnd Inr)"
  unfolding visits_def
proof (intro allI impI)
  fix s tr s'
  let ?R = "\<lambda>ctx p. replaceInParagraph defined p replace content style ctx"
  assume "in_section defined replace content style s = (tr, Inr s')"
  then obtain t1 a t2 b t3 c t4 d where
    a: "for_each (?R ''section.header'') (hf_paragraphs (header s)) = (t1, Inr a)" and
    b: "for_each (in_table (?R ''section.header.tables'')) (hf_tables (header s)) = (t2, Inr b)" and
    c: "for_each (?R ''section.footer'') (hf_paragraphs (footer s)) = (t3, Inr c)" and
    d: "for_each (in_table (?R ''section.footer.tables'')) (hf_tables (footer s)) = (t4, Inr d)" and
    tr: "tr = t1 @ t2 @ t3 @ t4" and
    s': "s' = s\<lparr>header := (header s)\<lparr>hf_paragraphs := a, hf_tables := b\<rparr>,
                footer := (footer s)\<lparr>hf_paragraphs := c, hf_tables := d\<rparr>\<rparr>"
    by (auto simp: in_section_def bind_io_Inr_iff ret_def)
  note za = visits_zone [OF visits_paragraphs a]
    and zb = visits_zone [OF visits_tables b]
    and zc = visits_zone [OF visits_paragraphs c]
    and zd = visits_zone [OF visits_tables d]
  show "tr = concat (map (\<lambda>loc. fst (visit defined replace content style loc)) (section_locations s)) \<and>
        map (apsnd Inr) (section_locations s') =
        map (\<lambda>loc. (fst loc, snd (visit defined replace content style loc))) (section_locations s)"
    unfolding section_locations_def tr s' using za zb zc zd by simp
qed

lemma visits_replaceParagraphInDoc:
  assumes "replaceParagraphInDoc doc replace content style = (tr, Inr doc')"
  shows "tr = concat (map (\<lambda>loc. fst (visit (styles doc) replace content style loc))
                       (paragraphLocations doc)) \<and>
         map (apsnd Inr) (paragraphLocations doc') =
         map (\<lambda>loc. (fst loc, snd (visit (styles doc) replace content style loc)))
           (paragraphLocations doc)"
proof -
  let ?R = "\<lambda>ctx p. replaceInParagraph (styles doc) p replace content style ctx"
  from assms obtain t1 a t2 b t3 c where
    a: "for_each (?R ''doc.paragraphs'') (paragraphs doc) = (t1, Inr a)" and
    b: "for_each (in_table (?R ''doc.tables'')) (tables doc) = (t2, Inr b)" and
    c: "for_each (in_section (styles doc) replace content style) (sections doc) = (t3, Inr c)" and
    tr: "tr = t1 @ t2 @ t3" and
    doc': "doc' = doc\<lparr>paragraphs := a, tables := b, sections := c\<rparr>"
    by (auto simp: replaceParagraphInDoc_def bind_io_Inr_iff ret_def)
  note za = visits_zone [OF visits_paragraphs a]
    and zb = visits_zone [OF visits_tables b]
    and zc = visitsD [OF visits_for_each [OF visits_in_section] c]
  show ?thesis
    unfolding paragraphLocations_def tr doc' using za zb zc by simp
qed

section \<open>The empty and the absent match string\<close>

lemma raises_at_firstD:
  "raises_at_first outer flat e \<Longrightarrow> outer x = (if flat x = [] then ret x else raise e)"
  by (simp add: raises_at_first_def)

lemma raises_for_each:
  assumes r: "raises_at_first outer flat e"
  shows "raises_at_first (for_each outer) (\<lambda>xs. concat (map flat xs)) e"
  unfolding raises_at_first_def
proof
  fix xs
  show "for_each outer xs = (if concat (map flat xs) = [] then ret xs else raise e)"
  proof (induction xs)
    case Nil
    show ?case by simp
  next
    case (Cons x xs)
    show ?case
    proof (cases "flat x = []")
      case True
      with raises_at_firstD [OF r, of x] Cons show ?thesis by simp
    next
      case False
      with raises_at_firstD [OF r, of x] show ?thesis by simp
    qed
  qed
qed

lemma raises_paragraph:
  "raises_at_first (\<lambda>p. replaceInParagraph defined p None content style c) (\<lambda>p. [p]) TypeError"
  by (simp add: raises_at_first_def replaceInParagraph_def)

lemma raises_paragraphs:
  "raises_at_first (for_each (\<lambda>p. replaceInParagraph defined p None content style c))
     (\<lambda>ps. ps) TypeError"
  using raises_for_each [OF raises_paragraph, of defined content style c]
  by (simp add: raises_at_first_def)

lemma cell_update_same: "cell_paragraphs c = ps \<Longrightarrow> c\<lparr>cell_paragraphs := ps\<rparr> = c"
  by (erule subst) simp

lemma hf_update_same: "hf_paragraphs h = ps \<Longrightarrow> h\<lparr>hf_paragraphs := ps\<rparr> = h"
  by (erule subst) simp

lemma document_update_same: "paragraphs doc = ps \<Longrightarrow> doc\<lparr>paragraphs := ps\<rparr> = doc"
  by (erule subst) simp

lemma raises_in_cell:
  "raises_at_first (for_each body) (\<lambda>ps. ps) e \<Longrightarrow> raises_at_first (in_cell body) cell_paragraphs e"
  by (simp add: raises_at_first_def in_cell_def cell_update_same)

lemma raises_in_row:
  "raises_at_first (for_each body) (\<lambda>ps. ps) e \<Longrightarrow> raises_at_first (in_row body) row_paragraphs e"
  using raises_for_each [OF raises_in_cell, of body e]
  by (simp add: raises_at_first_def in_row_def row_paragraphs_def)

lemma raises_in_table:
  "raises_at_first (for_each body) (\<lambda>ps. ps) e \<Longrightarrow>
   raises_at_first (in_table body) table_paragraphs e"
  using raises_for_each [OF raises_in_row, of body e]
  by (simp add: raises_at_first_def in_table_def table_paragraphs_def)

lemma raises_tables:
  "raises_at_first (for_each (in_table (\<lambda>p. replaceInParagraph defined p None content style c)))
     (\<lambda>ts. concat (map table_paragraphs ts)) TypeError"
  by (rule raises_for_each [OF raises_in_table [OF raises_paragraphs]])

lemma raises_in_section:
  "raises_at_first (in_section defined None content style) section_locations TypeError"
  unfolding raises_at_first_def
proof
  fix s :: "section"
  note a = raises_at_firstD [OF raises_paragraphs, of defined content style _ "hf_paragraphs (header s)"]
    and b = raises_at_firstD [OF raises_tables, of defined content style _ "hf_tables (header s)"]
    and c = raises_at_firstD [OF raises_paragraphs, of defined content style _ "hf_paragraphs (footer s)"]
    and d = raises_at_firstD [OF raises_tables, of defined content style _ "hf_tables (footer s)"]
  show "in_section defined None content style s =
        (if section_locations s = [] then ret s else raise TypeError)"
    by (simp add: in_section_def section_locations_def a b c d hf_update_same)
qed

lemma replaceParagraphInDoc_absent_match:
  "replaceParagraphInDoc doc None content style =
     (if paragraphLocations doc = [] then ret doc else raise TypeError)"
proof -
  note a = raises_at_firstD [OF raises_paragraphs, of "styles doc" content style _ "paragraphs doc"]
    and b = raises_at_firstD [OF raises_tables, of "styles doc" content style _ "tables doc"]
    and c = raises_at_firstD [OF raises_for_each [OF raises_in_section],
        of "styles doc" content style "sections doc"]
  show ?thesis
    by (simp add: replaceParagraphInDoc_def paragraphLocations_def a b c document_update_same)
qed

lemma small_doc_locations:
  "paragraphLocations small_doc = [(''doc.paragraphs'', \<lparr>para_text = ''Hello'', para_style = None\<rparr>)]"
  by (simp add: paragraphLocations_def small_doc_def)

text \<open>
  Claim C2 says that a replace operation with an absent or empty match string leaves the
  document unchanged. It does not hold: on a document of one paragraph, the empty match
  string rewrites the paragraph, and the absent match string makes the operation raise.
\<close>

theorem empty_or_absent_match_changes_document:
  "snd (replaceParagraphInDoc small_doc (Some []) (Some ''X'') None) \<noteq> Inr small_doc \<and>
   snd (replaceParagraphInDoc small_doc None (Some ''X'') None) \<noteq> Inr small_doc"
proof
  have "snd (replaceParagraphInDoc small_doc (Some []) (Some ''X'') None) =
        Inr (small_doc\<lparr>paragraphs := [\<lparr>para_text = ''X'', para_style = None\<rparr>]\<rparr>)"
    by (simp add: replaceParagraphInDoc_def small_doc_def replaceInParagraph_def set_text_def
        emit_def ret_def)
  then show "snd (replaceParagraphInDoc small_doc (Some []) (Some ''X'') None) \<noteq> Inr small_doc"
    by (simp add: small_doc_def)
next
  show "snd (replaceParagraphInDoc small_doc None (Some ''X'') None) \<noteq> Inr small_doc"
    by (simp add: replaceParagraphInDoc_absent_match small_doc_locations)
qed

text \<open>
  Claim C2, amended. The code has no guard for the empty match string. With the empty match
  string every paragraph of the document is rewritten to the content (and given the style,
  when one is assigned), since the empty string occurs in every text. With an absent match
  string the test \<^verbatim>\<open>None in para.text\<close> raises \<^verbatim>\<open>TypeError\<close> at the first
  paragraph visited, before anything is printed; the document is left unchanged only when it
  has no paragraph at all.
\<close>

theorem replace_with_empty_or_absent_match:
  "(\<not> assigns style \<or> the style \<in> set (styles doc) \<longrightarrow>
      snd (replaceParagraphInDoc doc (Some []) content style) =
      Inr (map_paragraphs
             (\<lambda>p. p\<lparr>para_text := (case content of None \<Rightarrow> [] | Some c \<Rightarrow> c),
                    para_style := (if assigns style then style else para_style p)\<rparr>) doc)) \<and>
   (paragraphLocations doc \<noteq> [] \<longrightarrow>
      replaceParagraphInDoc doc None content style = ([], Inl TypeError)) \<and>
   (paragraphLocations doc = [] \<longrightarrow>
      replaceParagraphInDoc doc None content style = ([], Inr doc))"
proof (intro conjI impI)
  assume ok: "\<not> assigns style \<or> the style \<in> set (styles doc)"
  have r: "rewritten [] content style =
           (\<lambda>p. p\<lparr>para_text := (case content of None \<Rightarrow> [] | Some c \<Rightarrow> c),
                  para_style := (if assigns style then style else para_style p)\<rparr>)"
    by (rule ext) (simp add: rewritten_def)
  from replaceParagraphInDoc_total [OF ok] obtain doc' where
    s: "snd (replaceParagraphInDoc doc (Some []) content style) = Inr doc'" by blast
  from replaceParagraphInDoc_refines [OF s] s r
  show "snd (replaceParagraphInDoc doc (Some []) content style) =
      Inr (map_paragraphs
             (\<lambda>p. p\<lparr>para_text := (case content of None \<Rightarrow> [] | Some c \<Rightarrow> c),
                    para_style := (if assigns style then style else para_style p)\<rparr>) doc)"
    by simp
next
  assume "paragraphLocations doc \<noteq> []"
  then show "replaceParagraphInDoc doc None content style = ([], Inl TypeError)"
    by (simp add: replaceParagraphInDoc_absent_match raise_def)
next
  assume "paragraphLocations doc = []"
  then show "replaceParagraphInDoc doc None content style = ([], Inr doc)"
    by (simp add: replaceParagraphInDoc_absent_match ret_def)
qed

theorem replace_with_empty_or_absent_match_witness:
  "\<not> assigns None \<and> paragraphLocations small_doc \<noteq> [] \<and>
   paragraphLocations (small_doc\<lparr>paragraphs := []\<rparr>) = [] \<and>
   snd (replaceParagraphInDoc small_doc (Some []) (Some ''X'') None) =
     Inr (small_doc\<lparr>paragraphs := [\<lparr>para_text = ''X'', para_style = None\<rparr>]\<rparr>) \<and>
   replaceParagraphInDoc small_doc None (Some ''X'') None = ([], Inl TypeError) \<and>
   replaceParagraphInDoc (small_doc\<lparr>paragraphs := []\<rparr>) None (Some ''X'') None =
     ([], Inr (small_doc\<lparr>paragraphs := []\<rparr>))"
proof -
  have a: "\<not> assigns None"
    by (simp add: assigns_def)
  have b: "paragraphLocations small_doc \<noteq> []"
    by (simp add: small_doc_locations)
  have c: "paragraphLocations (small_doc\<lparr>paragraphs := []\<rparr>) = []"
    by (simp add: paragraphLocations_def small_doc_def)
  note t1 = replace_with_empty_or_absent_match [of None small_doc "Some ''X''"]
  note t2 = replace_with_empty_or_absent_match [of None "small_doc\<lparr>paragraphs := []\<rparr>" "Some ''X''"]
  from t1 a have "snd (replaceParagraphInDoc small_doc (Some []) (Some ''X'') None) =
      Inr (map_paragraphs (\<lambda>p. p\<lparr>para_text := ''X'', para_style := para_style p\<rparr>) small_doc)"
    by simp
  then have d: "snd (replaceParagraphInDoc small_doc (Some []) (Some ''X'') None) =
     Inr (small_doc\<lparr>paragraphs := [\<lparr>para_text = ''X'', para_style = None\<rparr>]\<rparr>)"
    by (simp add: map_paragraphs_def small_doc_def)
  from t1 b have e: "replaceParagraphInDoc small_doc None (Some ''X'') None = ([], Inl TypeError)"
    by blast
  from t2 c have "replaceParagraphInDoc (small_doc\<lparr>paragraphs := []\<rparr>) None (Some ''X'') None =
     ([], Inr (small_doc\<lparr>paragraphs := []\<rparr>))"
    by blast
  with a b c d e show ?thesis by blast
qed

section \<open>The loop over the rows\<close>

lemma rows_loop_run_rows:
  "rows_loop sh cfg contentColumn r doc = run_rows (row_body sh cfg contentColumn) [r..max_row sh] doc"
proof (induction sh cfg contentColumn r doc rule: rows_loop.induct)
  case (1 sh cfg contentColumn r doc)
  show ?case
  proof (cases "r < max_row sh + 1")
    case True
    then have "[r..max_row sh] = r # [r + 1..max_row sh]"
      by (simp add: upto_rec1)
    moreover from True "1.IH" have
      "rows_loop sh cfg contentColumn (r + 1) =
       run_rows (row_body sh cfg contentColumn) [r + 1..max_row sh]"
      by (intro ext) simp
    ultimately show ?thesis
      using True by (simp add: rows_loop.simps [of sh cfg contentColumn r doc])
  next
    case False
    then have "[r..max_row sh] = []" by simp
    with False show ?thesis
      by (simp add: rows_loop.simps [of sh cfg contentColumn r doc])
  qed
qed

lemma row_body_cells:
  "1 \<le> r \<Longrightarrow> 1 \<le> commandColumn cfg \<Longrightarrow> 1 \<le> replaceColumn cfg \<Longrightarrow> 1 \<le> contentColumn \<Longrightarrow>
   1 \<le> styleColumn cfg \<Longrightarrow>
   row_body sh cfg contentColumn r doc =
     (if truthy_value (cell_value sh r (commandColumn cfg)) \<and>
         \<not> is_text (cell_value sh r (commandColumn cfg))
      then raise TypeError
      else applyCommand doc (as_text (cell_value sh r (commandColumn cfg)))
             (as_text (cell_value sh r (replaceColumn cfg)))
             (as_text (cell_value sh r contentColumn))
             (as_text (cell_value sh r (styleColumn cfg))))"
  by (simp add: row_body_def sheet_cell_def)

lemma applyCommand_skip:
  "command = None \<or> command = Some [] \<Longrightarrow>
   applyCommand doc command replace content style = ([], Inr doc)"
  by (auto simp: applyCommand_def ret_def)

lemma applyCommand_unexpected:
  "c \<noteq> [] \<Longrightarrow> \<not> str_in ''replace_paragraph'' c \<Longrightarrow> \<not> str_in ''add_paragraph'' c \<Longrightarrow>
   applyCommand doc (Some c) replace content style = ([Unexpected c content], Inr doc)"
  by (simp add: applyCommand_def ret_def del: str_in.simps)

section \<open>The add-paragraph operation\<close>

lemma add_paragraph_result:
  "snd (add_paragraph doc t style) = Inr doc' \<Longrightarrow>
   doc' = doc\<lparr>paragraphs := paragraphs doc @ [\<lparr>para_text = t, para_style = style\<rparr>]\<rparr>"
  by (cases style)
     (auto simp: add_paragraph_def set_style_def ret_def raise_def split: if_splits)

lemma add_paragraph_returns:
  "style = None \<or> the style \<in> set (styles doc) \<Longrightarrow>
   add_paragraph doc t style =
     ([], Inr (doc\<lparr>paragraphs := paragraphs doc @ [\<lparr>para_text = t, para_style = style\<rparr>]\<rparr>))"
  by (cases style) (auto simp: add_paragraph_def set_style_def ret_def)

lemma applyCommand_add:
  "str_in ''add_paragraph'' c \<Longrightarrow> \<not> str_in ''replace_paragraph'' c \<Longrightarrow>
   applyCommand doc (Some c) replace content style =
     (if truthy content then add_paragraph doc (the content) style else ret doc)"
proof -
  assume a: "str_in ''add_paragraph'' c" and r: "\<not> str_in ''replace_paragraph'' c"
  from a have "c \<noteq> []" by auto
  with a r show ?thesis
    by (simp add: applyCommand_def del: str_in.simps)
qed

text \<open>
  Claim C5. For a row whose command selects \<open>add_paragraph\<close>: with an absent or empty
  content the document is returned as it is and nothing is printed; with a content \<open>t\<close>
  that is present, whenever the operation returns, the body has exactly one paragraph more,
  the new paragraph is the last one of the body and has the text \<open>t\<close>, and the other
  paragraphs, the tables and the sections are untouched. The operation returns whenever the
  style cell is empty or names a style the template defines.
\<close>

theorem add_paragraph_appends_last:
  "str_in ''add_paragraph'' c \<and> \<not> str_in ''replace_paragraph'' c \<longrightarrow>
     (content = None \<or> content = Some [] \<longrightarrow>
        applyCommand doc (Some c) replace content style = ([], Inr doc)) \<and>
     (t \<noteq> [] \<longrightarrow>
        (\<forall>doc'. snd (applyCommand doc (Some c) replace (Some t) style) = Inr doc' \<longrightarrow>
           doc' = doc\<lparr>paragraphs := paragraphs doc @ [\<lparr>para_text = t, para_style = style\<rparr>]\<rparr> \<and>
           length (paragraphs doc') = length (paragraphs doc) + 1 \<and>
           para_text (last (paragraphs doc')) = t \<and>
           butlast (paragraphs doc') = paragraphs doc \<and>
           tables doc' = tables doc \<and> sections doc' = sections doc) \<and>
        (style = None \<or> the style \<in> set (styles doc) \<longrightarrow>
           applyCommand doc (Some c) replace (Some t) style =
             ([], Inr (doc\<lparr>paragraphs := paragraphs doc @
                               [\<lparr>para_text = t, para_style = style\<rparr>]\<rparr>))))"
proof (intro impI conjI allI)
  assume c: "str_in ''add_paragraph'' c \<and> \<not> str_in ''replace_paragraph'' c"
  assume "content = None \<or> content = Some []"
  with c show "applyCommand doc (Some c) replace content style = ([], Inr doc)"
    by (auto simp: applyCommand_add ret_def)
next
  fix doc'
  assume c: "str_in ''add_paragraph'' c \<and> \<not> str_in ''replace_paragraph'' c"
    and t: "t \<noteq> []"
    and r: "snd (applyCommand doc (Some c) replace (Some t) style) = Inr doc'"
  from c t r have "snd (add_paragraph doc t style) = Inr doc'"
    by (simp add: applyCommand_add)
  from add_paragraph_result [OF this]
  show "doc' = doc\<lparr>paragraphs := paragraphs doc @ [\<lparr>para_text = t, para_style = style\<rparr>]\<rparr>"
    and "length (paragraphs doc') = length (paragraphs doc) + 1"
    and "para_text (last (paragraphs doc')) = t"
    and "butlast (paragraphs doc') = paragraphs doc"
    and "tables doc' = tables doc" and "sections doc' = sections doc"
    by simp_all
next
  assume c: "str_in ''add_paragraph'' c \<and> \<not> str_in ''replace_paragraph'' c"
    and t: "t \<noteq> []"
    and s: "style = None \<or> the style \<in> set (styles doc)"
  from c t add_paragraph_returns [OF s]
  show "applyCommand doc (Some c) replace (Some t) style =
        ([], Inr (doc\<lparr>paragraphs := paragraphs doc @ [\<lparr>para_text = t, para_style = style\<rparr>]\<rparr>))"
    by (simp add: applyCommand_add)
qed

lemma cmd_add: "str_in ''add_paragraph'' ''add_paragraph''"
  by simp

lemma cmd_add_not_replace: "\<not> str_in ''replace_paragraph'' ''add_paragraph''"
  by simp

lemma cmd_replace: "str_in ''replace_paragraph'' ''replace_paragraph''"
  by simp

theorem add_paragraph_appends_last_witness:
  "str_in ''add_paragraph'' ''add_paragraph'' \<and> \<not> str_in ''replace_paragraph'' ''add_paragraph'' \<and>
   applyCommand small_doc (Some ''add_paragraph'') None None (Some ''Normal'') = ([], Inr small_doc) \<and>
   applyCommand small_doc (Some ''add_paragraph'') None (Some ''Signed, Bob'') (Some ''Normal'') =
     ([], Inr (small_doc\<lparr>paragraphs := paragraphs small_doc @
         [\<lparr>para_text = ''Signed, Bob'', para_style = Some ''Normal''\<rparr>]\<rparr>))"
proof -
  have c: "str_in ''add_paragraph'' ''add_paragraph'' \<and>
           \<not> str_in ''replace_paragraph'' ''add_paragraph''"
    using cmd_add cmd_add_not_replace by blast
  have s: "Some ''Normal'' = None \<or> the (Some ''Normal'') \<in> set (styles small_doc)"
    by (simp add: small_doc_def)
  have n: "''Signed, Bob'' \<noteq> []"
    by simp
  note t = add_paragraph_appends_last
    [of "''add_paragraph''" None small_doc None "Some ''Normal''" "''Signed, Bob''",
      rule_format, OF c]
  from t have a: "applyCommand small_doc (Some ''add_paragraph'') None None (Some ''Normal'') =
      ([], Inr small_doc)"
    by blast
  from t n s have b:
    "applyCommand small_doc (Some ''add_paragraph'') None (Some ''Signed, Bob'') (Some ''Normal'') =
     ([], Inr (small_doc\<lparr>paragraphs := paragraphs small_doc @
         [\<lparr>para_text = ''Signed, Bob'', para_style = Some ''Normal''\<rparr>]\<rparr>))"
    by blast
  from a b c show ?thesis
    by blast
qed

text \<open>
  Claim C6 says that an added paragraph whose style cell holds the literal \<open>None\<close> gets the
  template's default paragraph style. The code passes the cell to \<^verbatim>\<open>add_paragraph\<close> as
  it is, so python-docx looks for a style of the name \<open>None\<close> and raises; the replace
  path, on the same style cell, tests for the literal and leaves the style alone.
\<close>

theorem add_paragraph_style_None_raises:
  "applyCommand small_doc (Some ''add_paragraph'') None (Some ''Signed, Bob'') (Some ''None'') =
     ([], Inl (StyleNotFound ''None'')) \<and>
   applyCommand small_doc (Some ''replace_paragraph'') (Some ''Hello'') (Some ''Signed, Bob'')
     (Some ''None'') =
     ([Replaced ''doc.paragraphs'' ''Hello'' (Some ''Signed, Bob'')],
      Inr (small_doc\<lparr>paragraphs := [\<lparr>para_text = ''Signed, Bob'', para_style = None\<rparr>]\<rparr>))"
proof
  have "add_paragraph small_doc ''Signed, Bob'' (Some ''None'') = ([], Inl (StyleNotFound ''None''))"
    by (simp add: add_paragraph_def set_style_def raise_def small_doc_def)
  then show "applyCommand small_doc (Some ''add_paragraph'') None (Some ''Signed, Bob'')
               (Some ''None'') = ([], Inl (StyleNotFound ''None''))"
    using cmd_add cmd_add_not_replace by (simp add: applyCommand_add del: str_in.simps)
next
  have "replaceParagraphInDoc small_doc (Some ''Hello'') (Some ''Signed, Bob'') (Some ''None'') =
     ([Replaced ''doc.paragraphs'' ''Hello'' (Some ''Signed, Bob'')],
      Inr (small_doc\<lparr>paragraphs := [\<lparr>para_text = ''Signed, Bob'', para_style = None\<rparr>]\<rparr>))"
    by (simp add: small_doc_def replaceParagraphInDoc_def replaceInParagraph_def set_text_def
        emit_def ret_def)
  then show "applyCommand small_doc (Some ''replace_paragraph'') (Some ''Hello'')
      (Some ''Signed, Bob'') (Some ''None'') =
     ([Replaced ''doc.paragraphs'' ''Hello'' (Some ''Signed, Bob'')],
      Inr (small_doc\<lparr>paragraphs := [\<lparr>para_text = ''Signed, Bob'', para_style = None\<rparr>]\<rparr>))"
    using cmd_replace by (simp add: applyCommand_def del: str_in.simps)
qed

section \<open>Exceptions and saved files\<close>

lemma snd_bind_io_Inl_iff:
  "snd (bind_io m f) = Inl e \<longleftrightarrow>
     snd m = Inl e \<or> (\<exists>x. snd m = Inr x \<and> snd (f x) = Inl e)"
  by (cases m; cases "snd m") (auto simp: bind_io_def)

lemma fst_bind_io:
  "fst (bind_io m f) = fst m @ (case snd m of Inl e \<Rightarrow> [] | Inr x \<Rightarrow> fst (f x))"
  by (cases m; cases "snd m") (auto simp: bind_io_def)

lemma saved_files_append [simp]: "saved_files (a @ b) = saved_files a @ saved_files b"
  by (induction a rule: saved_files.induct) simp_all

lemma saved_bind_io:
  "saved_files (fst m) = [] \<Longrightarrow> (\<And>x. saved_files (fst (f x)) = []) \<Longrightarrow>
   saved_files (fst (bind_io m f)) = []"
  by (simp add: fst_bind_io split: sum.splits)

lemma fails_onlyD: "fails_only body e \<Longrightarrow> snd (body x) = Inl e' \<Longrightarrow> e' = e"
  by (simp add: fails_only_def)

lemma saves_nothingD: "saves_nothing body \<Longrightarrow> saved_files (fst (body x)) = []"
  by (simp add: saves_nothing_def)

lemma fails_only_for_each: "fails_only body e \<Longrightarrow> fails_only (for_each body) e"
  unfolding fails_only_def
proof (intro allI impI)
  fix xs e'
  assume f: "\<forall>x e'. snd (body x) = Inl e' \<longrightarrow> e' = e" and "snd (for_each body xs) = Inl e'"
  then show "e' = e"
    by (induction xs) (auto simp: snd_bind_io_Inl_iff)
qed

lemma saves_nothing_for_each: "saves_nothing body \<Longrightarrow> saves_nothing (for_each body)"
  unfolding saves_nothing_def
proof
  fix xs
  assume s: "\<forall>x. saved_files (fst (body x)) = []"
  show "saved_files (fst (for_each body xs)) = []"
    by (induction xs) (simp_all add: s saved_bind_io)
qed

lemma fails_only_in_table: "fails_only body e \<Longrightarrow> fails_only (in_table body) e"
proof -
  assume b: "fails_only body e"
  have c: "fails_only (in_cell body) e"
    using fails_only_for_each [OF b]
    by (auto simp: fails_only_def in_cell_def snd_bind_io_Inl_iff)
  have r: "fails_only (in_row body) e"
    using fails_only_for_each [OF c]
    by (auto simp: fails_only_def in_row_def snd_bind_io_Inl_iff)
  show ?thesis
    using fails_only_for_each [OF r]
    by (auto simp: fails_only_def in_table_def snd_bind_io_Inl_iff)
qed

lemma saves_nothing_in_table: "saves_nothing body \<Longrightarrow> saves_nothing (in_table body)"
proof -
  assume b: "saves_nothing body"
  have c: "saves_nothing (in_cell body)"
    using saves_nothing_for_each [OF b]
    by (simp add: saves_nothing_def in_cell_def saved_bind_io)
  have r: "saves_nothing (in_row body)"
    using saves_nothing_for_each [OF c]
    by (simp add: saves_nothing_def in_row_def saved_bind_io)
  show ?thesis
    using saves_nothing_for_each [OF r]
    by (simp add: saves_nothing_def in_table_def saved_bind_io)
qed

lemma replaceInParagraph_cases:
  "replaceInParagraph defined p (Some s) content style c =
     (if str_in s (para_text p) then
        if assigns style then
          if the style \<in> set defined
          then ([Replaced c (para_text p) content, SetStyle (the style)],
                Inr ((set_text p content)\<lparr>para_style := style\<rparr>))
          else ([Replaced c (para_text p) content, SetStyle (the style)],
                Inl (StyleNotFound (the style)))
        else ([Replaced c (para_text p) content], Inr (set_text p content))
      else ([], Inr p))"
  by (cases style)
     (auto simp: replaceInParagraph_def assigns_def set_style_def emit_def ret_def raise_def
       simp del: str_in.simps)

lemma fails_only_replaceInParagraph:
  "fails_only (\<lambda>p. replaceInParagraph defined p (Some s) content style c)
     (StyleNotFound (the style))"
  by (auto simp: fails_only_def replaceInParagraph_cases split: if_splits simp del: str_in.simps)

lemma saves_nothing_replaceInParagraph:
  "saves_nothing (\<lambda>p. replaceInParagraph defined p replace content style c)"
proof (cases replace)
  case None
  then show ?thesis by (simp add: saves_nothing_def replaceInParagraph_def)
next
  case (Some s)
  then show ?thesis
    by (simp add: saves_nothing_def replaceInParagraph_cases del: str_in.simps)
qed

lemma fails_only_in_section:
  "fails_only (in_section defined (Some s) content style) (StyleNotFound (the style))"
proof -
  note p = fails_onlyD [OF fails_only_for_each [OF fails_only_replaceInParagraph]]
    and t = fails_onlyD [OF fails_only_for_each [OF fails_only_in_table
        [OF fails_only_replaceInParagraph]]]
  show ?thesis
    unfolding fails_only_def in_section_def
    by (auto simp: snd_bind_io_Inl_iff dest: p t)
qed

lemma fails_only_replaceParagraphInDoc:
  "snd (replaceParagraphInDoc doc (Some s) content style) = Inl e \<Longrightarrow>
   e = StyleNotFound (the style)"
proof -
  note p = fails_onlyD [OF fails_only_for_each [OF fails_only_replaceInParagraph]]
    and t = fails_onlyD [OF fails_only_for_each [OF fails_only_in_table
        [OF fails_only_replaceInParagraph]]]
    and c = fails_onlyD [OF fails_only_for_each [OF fails_only_in_section]]
  assume "snd (replaceParagraphInDoc doc (Some s) content style) = Inl e"
  then show ?thesis
    unfolding replaceParagraphInDoc_def
    by (auto simp: snd_bind_io_Inl_iff dest: p t c)
qed

lemma saves_nothing_in_section: "saves_nothing (in_section defined replace content style)"
proof -
  note p = saves_nothingD [OF saves_nothing_for_each [OF saves_nothing_replaceInParagraph]]
    and t = saves_nothingD [OF saves_nothing_for_each [OF saves_nothing_in_table
        [OF saves_nothing_replaceInParagraph]]]
  show ?thesis
    unfolding saves_nothing_def in_section_def
    by (intro allI saved_bind_io p t) simp
qed

lemma saves_nothing_replaceParagraphInDoc:
  "saved_files (fst (replaceParagraphInDoc doc replace content style)) = []"
proof -
  note p = saves_nothingD [OF saves_nothing_for_each [OF saves_nothing_replaceInParagraph]]
    and t = saves_nothingD [OF saves_nothing_for_each [OF saves_nothing_in_table
        [OF saves_nothing_replaceInParagraph]]]
    and c = saves_nothingD [OF saves_nothing_for_each [OF saves_nothing_in_section]]
  show ?thesis
    unfolding replaceParagraphInDoc_def
    by (intro saved_bind_io p t c) simp
qed

lemma replaceParagraphInDoc_raises:
  assumes loc: "loc \<in> set (paragraphLocations doc)"
    and m: "str_in s (para_text (snd loc))"
    and a: "assigns style" and u: "the style \<notin> set (styles doc)"
  shows "snd (replaceParagraphInDoc doc (Some s) content style) = Inl (StyleNotFound (the style))"
proof (cases "snd (replaceParagraphInDoc doc (Some s) content style)")
  case (Inl e)
  with fails_only_replaceParagraphInDoc [OF Inl] show ?thesis by simp
next
  case (Inr doc')
  then have "replaceParagraphInDoc doc (Some s) content style =
             (fst (replaceParagraphInDoc doc (Some s) content style), Inr doc')"
    by (metis prod.collapse)
  from visits_replaceParagraphInDoc [OF this] have
    e: "map (apsnd Inr) (paragraphLocations doc') =
        map (\<lambda>loc. (fst loc, snd (visit (styles doc) (Some s) content style loc)))
          (paragraphLocations doc)"
    by simp
  from m a u have "snd (visit (styles doc) (Some s) content style loc) =
                   Inl (StyleNotFound (the style))"
    by (simp add: visit_def replaceInParagraph_cases del: str_in.simps)
  with loc have "(fst loc, Inl (StyleNotFound (the style))) \<in>
      set (map (\<lambda>loc. (fst loc, snd (visit (styles doc) (Some s) content style loc)))
             (paragraphLocations doc))"
    by force
  with e have "(fst loc, Inl (StyleNotFound (the style))) \<in>
      set (map (apsnd Inr) (paragraphLocations doc'))"
    by simp
  then show ?thesis by auto
qed

lemma saved_add_paragraph: "saved_files (fst (add_paragraph doc t style)) = []"
  by (cases style) (simp_all add: add_paragraph_def set_style_def)

lemma saved_applyCommand:
  "saved_files (fst (applyCommand doc command replace content style)) = []"
  by (simp add: applyCommand_def saves_nothing_replaceParagraphInDoc saved_add_paragraph
      del: str_in.simps)

lemma saved_sheet_cell: "saved_files (fst (sheet_cell sh r c)) = []"
  by (simp add: sheet_cell_def)

lemma saved_row_body: "saved_files (fst (row_body sh cfg contentColumn r doc)) = []"
  unfolding row_body_def
  by (intro saved_bind_io saved_sheet_cell) (simp add: saved_applyCommand)

lemma saved_run_rows:
  "saved_files (fst (run_rows (row_body sh cfg contentColumn) rs doc)) = []"
  by (induction rs arbitrary: doc) (simp_all add: saved_bind_io saved_row_body)

lemma saved_rows_loop: "saved_files (fst (rows_loop sh cfg contentColumn r doc)) = []"
  by (simp add: rows_loop_run_rows saved_run_rows)

lemma run_rows_append:
  "run_rows body (xs @ ys) doc = bind_io (run_rows body xs doc) (run_rows body ys)"
proof (induction xs arbitrary: doc)
  case Nil
  show ?case by simp
next
  case (Cons x xs)
  have "run_rows body (xs @ ys) = (\<lambda>d. bind_io (run_rows body xs d) (run_rows body ys))"
    by (intro ext) (rule Cons.IH)
  then show ?case
    by (simp add: bind_io_assoc)
qed

lemma run_rows_raises:
  assumes "snd (run_rows body xs doc) = Inr d" and "snd (body k d) = Inl e"
  shows "snd (run_rows body (xs @ k # ys) doc) = Inl e"
  using assms by (auto simp: run_rows_append snd_bind_io_Inl_iff)

lemma rows_loop_raises:
  assumes "r \<le> k" and "k \<le> max_row sh"
    and "snd (run_rows (row_body sh cfg contentColumn) [r..k - 1] doc) = Inr d"
    and "snd (row_body sh cfg contentColumn k d) = Inl e"
  shows "snd (rows_loop sh cfg contentColumn r doc) = Inl e"
proof -
  from assms(1,2) have "[r..max_row sh] = [r..k - 1] @ k # [k + 1..max_row sh]"
    by (rule upto_split3)
  with run_rows_raises [OF assms(3,4)] show ?thesis
    by (simp add: rows_loop_run_rows)
qed

lemma getUsername_cases:
  "(\<exists>u. getUsername w = ([], Inr u)) \<or> (\<exists>k. getUsername w = ([], Inl (KeyError k)))"
  by (auto simp: getUsername_def environ_get_def ret_def raise_def split: option.splits)

lemma docx_Document_cases:
  "(\<exists>d. docx_Document w f = ([], Inr d)) \<or> docx_Document w f = ([], Inl (PackageNotFoundError f))"
  by (auto simp: docx_Document_def ret_def raise_def split: option.splits)

lemma generateOutputFile_saved:
  "map fst (saved_files (fst (generateOutputFile w sh cfg (filename, contentColumn)))) =
     (if snd (generateOutputFile w sh cfg (filename, contentColumn)) = Inr () then [filename]
      else [])"
proof -
  consider (nofile) "docx_Document w (templateFilename cfg) =
                      ([], Inl (PackageNotFoundError (templateFilename cfg)))"
    | (nouser) d k where "docx_Document w (templateFilename cfg) = ([], Inr d)"
        "getUsername w = ([], Inl (KeyError k))"
    | (rows) d u where "docx_Document w (templateFilename cfg) = ([], Inr d)"
        "getUsername w = ([], Inr u)"
    using getUsername_cases [of w] docx_Document_cases [of w "templateFilename cfg"] by blast
  then show ?thesis
  proof cases
    case nofile
    then show ?thesis by (simp add: generateOutputFile_def)
  next
    case nouser
    then show ?thesis by (simp add: generateOutputFile_def)
  next
    case rows
    let ?l = "rows_loop sh cfg contentColumn (contentStartRow cfg) (d\<lparr>author := u\<rparr>)"
    show ?thesis
    proof (cases "snd ?l")
      case (Inl e)
      with rows saved_rows_loop [of sh cfg contentColumn "contentStartRow cfg" "d\<lparr>author := u\<rparr>"]
      show ?thesis
        by (simp add: generateOutputFile_def fst_bind_io snd_bind_io_Inl bind_io_def emit_def)
    next
      case (Inr d')
      with rows saved_rows_loop [of sh cfg contentColumn "contentStartRow cfg" "d\<lparr>author := u\<rparr>"]
      show ?thesis
        by (simp add: generateOutputFile_def fst_bind_io bind_io_def emit_def)
    qed
  qed
qed

lemma generateOutputFile_raises:
  assumes "docx_Document w (templateFilename cfg) = ret doc" and "getUsername w = ret u"
    and "snd (rows_loop sh cfg contentColumn (contentStartRow cfg) (doc\<lparr>author := u\<rparr>)) = Inl e"
  shows "snd (generateOutputFile w sh cfg (filename, contentColumn)) = Inl e"
  using assms by (simp add: generateOutputFile_def snd_bind_io_Inl bind_io_def emit_def)

section \<open>Style assignment and the missing style\<close>

lemma applyCommand_replace:
  "str_in ''replace_paragraph'' c \<Longrightarrow>
   applyCommand doc (Some c) replace content style = replaceParagraphInDoc doc replace content style"
proof -
  assume r: "str_in ''replace_paragraph'' c"
  then have "c \<noteq> []" by auto
  with r show ?thesis
    by (simp add: applyCommand_def del: str_in.simps)
qed

text \<open>
  Claim C4. On a paragraph that matches, \<^verbatim>\<open>replaceInParagraph\<close> assigns the style
  exactly when the style cell is present, not empty and not the literal \<open>None\<close>: it then
  prints the style and sets it, and otherwise leaves the paragraph's style as it was. When
  the style to assign is not defined, the call raises \<open>StyleNotFound\<close> (python-docx's
  \<^verbatim>\<open>KeyError\<close>) after its two prints. The exception is not caught anywhere: a document
  with a matching paragraph makes \<^verbatim>\<open>replaceParagraphInDoc\<close> raise it, the row's
  dispatch passes it on, and when the rows before row \<open>k\<close> return and row \<open>k\<close> raises,
  the generation of that output file raises the same exception and saves no file.
\<close>

theorem style_assigned_or_StyleNotFound_raised:
  "(str_in s (para_text p) \<longrightarrow>
      (assigns style \<and> the style \<in> set defined \<longrightarrow>
         replaceInParagraph defined p (Some s) content style c =
           ([Replaced c (para_text p) content, SetStyle (the style)],
            Inr ((set_text p content)\<lparr>para_style := style\<rparr>))) \<and>
      (assigns style \<and> the style \<notin> set defined \<longrightarrow>
         replaceInParagraph defined p (Some s) content style c =
           ([Replaced c (para_text p) content, SetStyle (the style)],
            Inl (StyleNotFound (the style)))) \<and>
      (\<not> assigns style \<longrightarrow>
         replaceInParagraph defined p (Some s) content style c =
           ([Replaced c (para_text p) content], Inr (set_text p content)))) \<and>
   (assigns style \<longleftrightarrow> (\<exists>n. style = Some n \<and> n \<noteq> [] \<and> n \<noteq> ''None'')) \<and>
   (loc \<in> set (paragraphLocations doc) \<and> str_in s (para_text (snd loc)) \<and> assigns style \<and>
    the style \<notin> set (styles doc) \<longrightarrow>
      snd (replaceParagraphInDoc doc (Some s) content style) = Inl (StyleNotFound (the style))) \<and>
   (str_in ''replace_paragraph'' cmd \<longrightarrow>
      applyCommand doc (Some cmd) replace content style =
      replaceParagraphInDoc doc replace content style) \<and>
   (docx_Document w (templateFilename cfg) = ret doc \<and> getUsername w = ret u \<and>
    contentStartRow cfg \<le> k \<and> k \<le> max_row sh \<and>
    snd (run_rows (row_body sh cfg contentColumn) [contentStartRow cfg..k - 1]
           (doc\<lparr>author := u\<rparr>)) = Inr d \<and>
    snd (row_body sh cfg contentColumn k d) = Inl e \<longrightarrow>
      snd (generateOutputFile w sh cfg (filename, contentColumn)) = Inl e \<and>
      saved_files (fst (generateOutputFile w sh cfg (filename, contentColumn))) = [])"
proof (intro conjI impI)
  assume "str_in s (para_text p)" and "assigns style \<and> the style \<in> set defined"
  then show "replaceInParagraph defined p (Some s) content style c =
           ([Replaced c (para_text p) content, SetStyle (the style)],
            Inr ((set_text p content)\<lparr>para_style := style\<rparr>))"
    by (simp add: replaceInParagraph_cases del: str_in.simps)
next
  assume "str_in s (para_text p)" and "assigns style \<and> the style \<notin> set defined"
  then show "replaceInParagraph defined p (Some s) content style c =
           ([Replaced c (para_text p) content, SetStyle (the style)],
            Inl (StyleNotFound (the style)))"
    by (simp add: replaceInParagraph_cases del: str_in.simps)
next
  assume "str_in s (para_text p)" and "\<not> assigns style"
  then show "replaceInParagraph defined p (Some s) content style c =
           ([Replaced c (para_text p) content], Inr (set_text p content))"
    by (simp add: replaceInParagraph_cases del: str_in.simps)
next
  show "assigns style \<longleftrightarrow> (\<exists>n. style = Some n \<and> n \<noteq> [] \<and> n \<noteq> ''None'')"
    by (cases style) (auto simp: assigns_def)
next
  assume "loc \<in> set (paragraphLocations doc) \<and> str_in s (para_text (snd loc)) \<and> assigns style \<and>
    the style \<notin> set (styles doc)"
  then show "snd (replaceParagraphInDoc doc (Some s) content style) =
             Inl (StyleNotFound (the style))"
    by (blast intro: replaceParagraphInDoc_raises)
next
  assume "str_in ''replace_paragraph'' cmd"
  then show "applyCommand doc (Some cmd) replace content style =
             replaceParagraphInDoc doc replace content style"
    by (rule applyCommand_replace)
next
  assume a: "docx_Document w (templateFilename cfg) = ret doc \<and> getUsername w = ret u \<and>
    contentStartRow cfg \<le> k \<and> k \<le> max_row sh \<and>
    snd (run_rows (row_body sh cfg contentColumn) [contentStartRow cfg..k - 1]
           (doc\<lparr>author := u\<rparr>)) = Inr d \<and>
    snd (row_body sh cfg contentColumn k d) = Inl e"
  then have "snd (rows_loop sh cfg contentColumn (contentStartRow cfg) (doc\<lparr>author := u\<rparr>)) = Inl e"
    by (blast intro: rows_loop_raises)
  with a have r: "snd (generateOutputFile w sh cfg (filename, contentColumn)) = Inl e"
    by (blast intro: generateOutputFile_raises)
  then show "snd (generateOutputFile w sh cfg (filename, contentColumn)) = Inl e" .
  from r generateOutputFile_saved [of w sh cfg filename contentColumn]
  show "saved_files (fst (generateOutputFile w sh cfg (filename, contentColumn))) = []"
    by simp
qed

theorem style_assigned_or_StyleNotFound_raised_witness:
  "replaceInParagraph [''Normal''] \<lparr>para_text = ''Hello'', para_style = None\<rparr> (Some ''Hello'')
     (Some ''Bye'') (Some ''Normal'') ''doc.paragraphs'' =
     ([Replaced ''doc.paragraphs'' ''Hello'' (Some ''Bye''), SetStyle ''Normal''],
      Inr \<lparr>para_text = ''Bye'', para_style = Some ''Normal''\<rparr>) \<and>
   replaceInParagraph [''Normal''] \<lparr>para_text = ''Hello'', para_style = None\<rparr> (Some ''Hello'')
     (Some ''Bye'') (Some ''None'') ''doc.paragraphs'' =
     ([Replaced ''doc.paragraphs'' ''Hello'' (Some ''Bye'')],
      Inr \<lparr>para_text = ''Bye'', para_style = None\<rparr>) \<and>
   replaceInParagraph [''Normal''] \<lparr>para_text = ''Hello'', para_style = None\<rparr> (Some ''Hello'')
     (Some ''Bye'') (Some ''Missing'') ''doc.paragraphs'' =
     ([Replaced ''doc.paragraphs'' ''Hello'' (Some ''Bye''), SetStyle ''Missing''],
      Inl (StyleNotFound ''Missing'')) \<and>
   snd (generateOutputFile example_world style_sheet example_config (''out/a.docx'', 4)) =
     Inl (StyleNotFound ''Missing'') \<and>
   saved_files (fst (generateOutputFile example_world style_sheet example_config
     (''out/a.docx'', 4))) = []"
proof -
  let ?p = "\<lparr>para_text = ''Hello'', para_style = None\<rparr>"
  let ?d = "small_doc\<lparr>author := ''ernst''\<rparr>"
  note t = style_assigned_or_StyleNotFound_raised
    [where s = "''Hello''" and p = ?p and defined = "[''Normal'']" and content = "Some ''Bye''"
       and c = "''doc.paragraphs''" and loc = "(''doc.paragraphs'', ?p)" and doc = ?d
       and cmd = "''replace_paragraph''" and replace = "Some ''Hello''"]
  have m: "str_in ''Hello'' (para_text ?p)"
    by simp
  have a1: "assigns (Some ''Normal'')" and a2: "\<not> assigns (Some ''None'')"
    and a3: "assigns (Some ''Missing'')"
    by (simp_all add: assigns_def)
  from t [where style = "Some ''Normal''", THEN conjunct1] m a1 have p1:
    "replaceInParagraph [''Normal''] ?p (Some ''Hello'') (Some ''Bye'') (Some ''Normal'')
       ''doc.paragraphs'' =
     ([Replaced ''doc.paragraphs'' ''Hello'' (Some ''Bye''), SetStyle ''Normal''],
      Inr \<lparr>para_text = ''Bye'', para_style = Some ''Normal''\<rparr>)"
    by (simp add: set_text_def)
  from t [where style = "Some ''None''", THEN conjunct1] m a2 have p2:
    "replaceInParagraph [''Normal''] ?p (Some ''Hello'') (Some ''Bye'') (Some ''None'')
       ''doc.paragraphs'' =
     ([Replaced ''doc.paragraphs'' ''Hello'' (Some ''Bye'')],
      Inr \<lparr>para_text = ''Bye'', para_style = None\<rparr>)"
    by (simp add: set_text_def)
  from t [where style = "Some ''Missing''", THEN conjunct1] m a3 have p3:
    "replaceInParagraph [''Normal''] ?p (Some ''Hello'') (Some ''Bye'') (Some ''Missing'')
       ''doc.paragraphs'' =
     ([Replaced ''doc.paragraphs'' ''Hello'' (Some ''Bye''), SetStyle ''Missing''],
      Inl (StyleNotFound ''Missing''))"
    by simp
  have l: "(''doc.paragraphs'', ?p) \<in> set (paragraphLocations ?d)"
    by (simp add: paragraphLocations_def small_doc_def)
  have u: "the (Some ''Missing'') \<notin> set (styles ?d)"
    by (simp add: small_doc_def)
  from t [where style = "Some ''Missing''", THEN conjunct2, THEN conjunct2, THEN conjunct1] l m a3 u
  have r: "snd (replaceParagraphInDoc ?d (Some ''Hello'') (Some ''Bye'') (Some ''Missing'')) =
           Inl (StyleNotFound ''Missing'')"
    by simp
  from t [where style = "Some ''Missing''", THEN conjunct2, THEN conjunct2, THEN conjunct2,
      THEN conjunct1] cmd_replace
  have "applyCommand ?d (Some ''replace_paragraph'') (Some ''Hello'') (Some ''Bye'') (Some ''Missing'') =
        replaceParagraphInDoc ?d (Some ''Hello'') (Some ''Bye'') (Some ''Missing'')"
    by blast
  with r have b: "snd (row_body style_sheet example_config 4 2 ?d) = Inl (StyleNotFound ''Missing'')"
    by (simp add: row_body_cells example_config_def style_sheet_def)
  have w1: "docx_Document example_world (templateFilename example_config) = ret small_doc"
    by (simp add: docx_Document_def example_world_def example_config_def)
  have w2: "getUsername example_world = ret ''ernst''"
    by (simp add: getUsername_def environ_get_def example_world_def)
  have w3: "contentStartRow example_config \<le> 2 \<and> 2 \<le> max_row style_sheet"
    by (simp add: example_config_def style_sheet_def)
  have w4: "snd (run_rows (row_body style_sheet example_config 4)
                  [contentStartRow example_config..2 - 1] ?d) = Inr ?d"
    by (simp add: example_config_def)
  from style_assigned_or_StyleNotFound_raised
    [where w = example_world and cfg = example_config and doc = small_doc and u = "''ernst''"
       and k = 2 and sh = style_sheet and contentColumn = 4 and d = ?d
       and e = "StyleNotFound ''Missing''" and filename = "''out/a.docx''",
     THEN conjunct2, THEN conjunct2, THEN conjunct2, THEN conjunct2] w1 w2 w3 w4 b
  have "snd (generateOutputFile example_world style_sheet example_config (''out/a.docx'', 4)) =
          Inl (StyleNotFound ''Missing'') \<and>
        saved_files (fst (generateOutputFile example_world style_sheet example_config
          (''out/a.docx'', 4))) = []"
    by blast
  with p1 p2 p3 show ?thesis by blast
qed

section \<open>Output files without a directory\<close>

lemma dirname_empty_iff: "dirname p = [] \<longleftrightarrow> CHR ''/'' \<notin> set p"
proof
  assume n: "CHR ''/'' \<notin> set p"
  then have "dropWhile (\<lambda>x. x \<noteq> CHR ''/'') (rev p) = []"
    by auto
  then show "dirname p = []"
    by (simp add: dirname_def rfind_def)
next
  assume e: "dirname p = []"
  show "CHR ''/'' \<notin> set p"
  proof
    assume "CHR ''/'' \<in> set p"
    then have d: "dropWhile (\<lambda>x. x \<noteq> CHR ''/'') (rev p) \<noteq> []"
      by auto
    let ?head = "take (nat (rfind (CHR ''/'') p + 1)) p"
    from d have "0 < length (dropWhile (\<lambda>x. x \<noteq> CHR ''/'') (rev p))" by simp
    moreover have "length (dropWhile (\<lambda>x. x \<noteq> CHR ''/'') (rev p)) \<le> length p"
      by (metis length_dropWhile_le length_rev)
    ultimately have h: "?head \<noteq> []"
      by (auto simp: rfind_def)
    show False
    proof (cases "?head = replicate (length ?head) (CHR ''/'')")
      case True
      with e h show False by (simp add: dirname_def Let_def)
    next
      case False
      then obtain c where c: "c \<in> set ?head" "c \<noteq> CHR ''/''"
        by (metis replicate_length_same)
      then have "dropWhile (\<lambda>c. c = CHR ''/'') (rev ?head) \<noteq> []"
        by auto
      with e h False show False by (simp add: dirname_def Let_def)
    qed
  qed
qed

lemma appendTimestampToFilenames_spec:
  "appendTimestampToFilenames clk k filenames =
     (if \<forall>f \<in> set filenames. dirname f \<noteq> []
      then (map (\<lambda>f. MakeDirs (dirname f)) filenames, Inr (stamped clk k filenames))
      else (map (\<lambda>f. MakeDirs (dirname f)) (takeWhile (\<lambda>f. dirname f \<noteq> []) filenames),
            Inl FileNotFoundError))"
proof (induction filenames arbitrary: k)
  case Nil
  show ?case by (simp add: stamped_def ret_def)
next
  case (Cons f fs)
  have "[k..<Suc (k + length fs)] = k # [Suc k..<Suc (k + length fs)]"
    by (rule upt_conv_Cons) simp
  then have s: "stamped clk k (f # fs) =
                appendTimestampToFilename (clk k) f # stamped clk (Suc k) fs"
    by (simp add: stamped_def)
  show ?case
    by (simp add: Cons.IH s ensureDirectoryExists_def os_makedirs_def Let_def emit_def raise_def
        ret_def)
qed

lemma saved_files_MakeDirs: "saved_files (map (\<lambda>f. MakeDirs (g f)) fs) = []"
  by (induction fs) simp_all

text \<open>
  Claim C10. An output file name with no slash in it has the empty directory name, so
  \<^verbatim>\<open>ensureDirectoryExists\<close> calls \<^verbatim>\<open>os.makedirs("")\<close>, which raises. The names are
  stamped, and their directories made, before the first document is generated, so when any
  configured output file name is such a bare name the whole run raises
  \<open>FileNotFoundError\<close>: it has made the directories of the names before the first bare
  one, has generated nothing and has saved no file.
\<close>

theorem bare_filename_aborts_run:
  "filename \<in> set (outputFilenames cfg) \<and> CHR ''/'' \<notin> set filename \<longrightarrow>
     dirname filename = [] \<and>
     ensureDirectoryExists filename = ([], Inl FileNotFoundError) \<and>
     generateDocxFromXlsx w sh cfg =
       (map (\<lambda>f. MakeDirs (dirname f)) (takeWhile (\<lambda>f. dirname f \<noteq> []) (outputFilenames cfg)),
        Inl FileNotFoundError) \<and>
     saved_files (fst (generateDocxFromXlsx w sh cfg)) = []"
proof (intro impI conjI)
  assume a: "filename \<in> set (outputFilenames cfg) \<and> CHR ''/'' \<notin> set filename"
  then show d: "dirname filename = []"
    by (simp add: dirname_empty_iff)
  then show "ensureDirectoryExists filename = ([], Inl FileNotFoundError)"
    by (simp add: ensureDirectoryExists_def os_makedirs_def raise_def)
  from a d have "\<not> (\<forall>f \<in> set (outputFilenames cfg). dirname f \<noteq> [])"
    by blast
  then have "appendTimestampToFilenames (clock w) 0 (outputFilenames cfg) =
       (map (\<lambda>f. MakeDirs (dirname f)) (takeWhile (\<lambda>f. dirname f \<noteq> []) (outputFilenames cfg)),
        Inl FileNotFoundError)"
    unfolding appendTimestampToFilenames_spec by (rule if_not_P)
  then show g: "generateDocxFromXlsx w sh cfg =
       (map (\<lambda>f. MakeDirs (dirname f)) (takeWhile (\<lambda>f. dirname f \<noteq> []) (outputFilenames cfg)),
        Inl FileNotFoundError)"
    by (simp add: generateDocxFromXlsx_def)
  show "saved_files (fst (generateDocxFromXlsx w sh cfg)) = []"
    by (simp add: g saved_files_MakeDirs)
qed

theorem bare_filename_aborts_run_witness:
  "''generatedDataFile1.docx'' \<in> set (outputFilenames default_config) \<and>
   CHR ''/'' \<notin> set ''generatedDataFile1.docx'' \<and>
   generateDocxFromXlsx example_world example_sheet default_config = ([], Inl FileNotFoundError)"
proof -
  have a: "''generatedDataFile1.docx'' \<in> set (outputFilenames default_config) \<and>
           CHR ''/'' \<notin> set ''generatedDataFile1.docx''"
    by (simp add: default_config_def)
  note t = bare_filename_aborts_run
    [of "''generatedDataFile1.docx''" default_config example_world example_sheet,
      rule_format, OF a]
  from t have d: "dirname ''generatedDataFile1.docx'' = []"
    by blast
  have "takeWhile (\<lambda>f. dirname f \<noteq> []) (outputFilenames default_config) = []"
    by (simp add: default_config_def d)
  with t have "generateDocxFromXlsx example_world example_sheet default_config =
               ([], Inl FileNotFoundError)"
    by simp
  with a show ?thesis by blast
qed

section \<open>The rows of one output file\<close>

lemma generateOutputFile_rows:
  "docx_Document w (templateFilename cfg) = ret doc \<Longrightarrow> getUsername w = ret u \<Longrightarrow>
   generateOutputFile w sh cfg (filename, contentColumn) =
     bind_io (emit (Generate filename (templateFilename cfg))) (\<lambda>_.
     bind_io (emit (Author u)) (\<lambda>_.
     bind_io (run_rows (row_body sh cfg contentColumn) [contentStartRow cfg..max_row sh]
                (doc\<lparr>author := u\<rparr>)) (\<lambda>doc'.
     emit (Saved filename doc'))))"
  by (simp add: generateOutputFile_def rows_loop_run_rows)

lemma row_body_skipped:
  assumes "1 \<le> r" "1 \<le> commandColumn cfg" "1 \<le> replaceColumn cfg" "1 \<le> contentColumn"
    "1 \<le> styleColumn cfg"
    and "\<not> truthy_value (cell_value sh r (commandColumn cfg))"
  shows "row_body sh cfg contentColumn r doc = ([], Inr doc)"
proof -
  from assms(6) have "as_text (cell_value sh r (commandColumn cfg)) = None \<or>
                      as_text (cell_value sh r (commandColumn cfg)) = Some []"
    by (cases "cell_value sh r (commandColumn cfg)") simp_all
  with assms show ?thesis
    by (simp add: row_body_cells applyCommand_skip)
qed

lemma row_body_unexpected:
  assumes "1 \<le> r" "1 \<le> commandColumn cfg" "1 \<le> replaceColumn cfg" "1 \<le> contentColumn"
    "1 \<le> styleColumn cfg"
    and "cell_value sh r (commandColumn cfg) = Text c" and "c \<noteq> []"
    and "\<not> str_in ''replace_paragraph'' c" and "\<not> str_in ''add_paragraph'' c"
  shows "row_body sh cfg contentColumn r doc =
         ([Unexpected c (as_text (cell_value sh r contentColumn))], Inr doc)"
  using assms by (simp add: row_body_cells applyCommand_unexpected del: str_in.simps)

lemma row_body_command_not_text:
  assumes "1 \<le> r" "1 \<le> commandColumn cfg" "1 \<le> replaceColumn cfg" "1 \<le> contentColumn"
    "1 \<le> styleColumn cfg"
    and "truthy_value (cell_value sh r (commandColumn cfg))"
    and "\<not> is_text (cell_value sh r (commandColumn cfg))"
  shows "row_body sh cfg contentColumn r doc = ([], Inl TypeError)"
  using assms by (simp add: row_body_cells raise_def)

lemma example_world_template:
  "docx_Document example_world (templateFilename example_config) = ret small_doc"
  by (simp add: docx_Document_def example_world_def example_config_def)

lemma example_world_user: "getUsername example_world = ret ''ernst''"
  by (simp add: getUsername_def environ_get_def example_world_def)

lemma cmd_foo:
  "\<not> str_in ''replace_paragraph'' ''foo''" "\<not> str_in ''add_paragraph'' ''foo''"
  by simp_all

lemma number_sheet_rows:
  "row_body number_sheet example_config 4 2 d = ([], Inr d)"
  "row_body number_sheet example_config 4 3 d = ([Unexpected ''foo'' (Some ''Some text'')], Inr d)"
  "row_body number_sheet example_config 4 4 d = ([], Inl TypeError)"
  by (simp_all add: row_body_cells example_config_def number_sheet_def applyCommand_skip
      applyCommand_unexpected cmd_foo raise_def del: str_in.simps)

lemma example_sheet_rows:
  "row_body example_sheet example_config 4 2 d = ([], Inr d)"
  "row_body example_sheet example_config 4 3 d = ([Unexpected ''foo'' (Some ''Some text'')], Inr d)"
  by (simp_all add: row_body_cells example_config_def example_sheet_def applyCommand_skip
      applyCommand_unexpected cmd_foo del: str_in.simps)

text \<open>
  Claim C7 says that a row whose command has neither recognised token in it is reported
  and otherwise ignored, never fatal. The generation of one output file does run the rows
  from \<open>contentStartRow\<close> to \<open>max_row\<close> in order (\<open>generateOutputFile_rows\<close>), skips a
  row whose command cell is empty without a print (\<open>row_body_skipped\<close>) and reports a
  text command with neither token and goes on (\<open>row_body_unexpected\<close>). But a command
  cell that holds a number never reaches the \<^verbatim>\<open>else\<close> branch that prints
  \<^verbatim>\<open>Unexpected object\<close>: the test of line 237 raises \<^verbatim>\<open>TypeError\<close>
  (\<open>row_body_command_not_text\<close>). On the worksheet whose row 2 is empty, whose row 3 has
  the command \<open>foo\<close> and whose row 4 has the number 5 as its command, the generation
  reports row 3, raises at row 4 and saves no file; without row 4 it saves the file.
\<close>

theorem number_in_command_cell_is_fatal:
  "generateOutputFile example_world number_sheet example_config (''out/a.docx'', 4) =
     ([Generate ''out/a.docx'' ''template.docx'', Author ''ernst'',
       Unexpected ''foo'' (Some ''Some text'')],
      Inl TypeError) \<and>
   generateOutputFile example_world example_sheet example_config (''out/a.docx'', 4) =
     ([Generate ''out/a.docx'' ''template.docx'', Author ''ernst'',
       Unexpected ''foo'' (Some ''Some text''),
       Saved ''out/a.docx'' (small_doc\<lparr>author := ''ernst''\<rparr>)],
      Inr ())"
proof
  have t: "templateFilename example_config = ''template.docx''"
    by (simp add: example_config_def)
  have l: "[contentStartRow example_config..max_row number_sheet] = [2, 3, 4]"
    by (simp add: example_config_def number_sheet_def upto_rec1)
  show "generateOutputFile example_world number_sheet example_config (''out/a.docx'', 4) =
     ([Generate ''out/a.docx'' ''template.docx'', Author ''ernst'',
       Unexpected ''foo'' (Some ''Some text'')],
      Inl TypeError)"
    by (simp add: generateOutputFile_rows [OF example_world_template example_world_user]
        l t number_sheet_rows emit_def)
next
  have t: "templateFilename example_config = ''template.docx''"
    by (simp add: example_config_def)
  have l: "[contentStartRow example_config..max_row example_sheet] = [2, 3]"
    by (simp add: example_config_def example_sheet_def upto_rec1)
  show "generateOutputFile example_world example_sheet example_config (''out/a.docx'', 4) =
     ([Generate ''out/a.docx'' ''template.docx'', Author ''ernst'',
       Unexpected ''foo'' (Some ''Some text''),
       Saved ''out/a.docx'' (small_doc\<lparr>author := ''ernst''\<rparr>)],
      Inr ())"
    by (simp add: generateOutputFile_rows [OF example_world_template example_world_user]
        l t example_sheet_rows emit_def ret_def)
qed

section \<open>The visits of a replace operation\<close>











lemma para_text_set_text [simp]: "para_text (set_text p content) = content_text content"
  by (simp add: set_text_def content_text_def)

lemma set_text_set_text [simp]: "set_text (set_text p content) content = set_text p content"
  by (simp add: set_text_def)





section \<open>The stamp in a file name\<close>

lemma distinct_digits: "distinct ''0123456789''"
  by simp

lemma digit_eq_iff: "digit a = digit b \<longleftrightarrow> a mod 10 = b mod 10"
  unfolding digit_def using distinct_digits
  by (subst nth_eq_iff_index_eq) auto

lemma dec_lt_10: "n < 10 \<Longrightarrow> dec n = [digit n]"
  by (simp add: dec.simps)

lemma dec_lt_100: "10 \<le> n \<Longrightarrow> n < 100 \<Longrightarrow> dec n = [digit (n div 10), digit n]"
  by (subst dec.simps) (simp add: dec_lt_10)

lemma dec_lt_1000:
  "100 \<le> n \<Longrightarrow> n < 1000 \<Longrightarrow> dec n = [digit (n div 100), digit (n div 10), digit n]"
  by (subst dec.simps) (simp add: dec_lt_100 div_mult2_eq [symmetric])

lemma dec_lt_10000:
  "1000 \<le> n \<Longrightarrow> n < 10000 \<Longrightarrow>
   dec n = [digit (n div 1000), digit (n div 100), digit (n div 10), digit n]"
  by (subst dec.simps) (simp add: dec_lt_1000 div_mult2_eq [symmetric])

lemma digit_0: "digit 0 = CHR ''0''"
  by (simp add: digit_def)

lemma pad2_lt_100: "n < 100 \<Longrightarrow> pad2 n = [digit (n div 10), digit n]"
proof (cases "n < 10")
  case True
  then show ?thesis by (simp add: pad2_def dec_lt_10 digit_0)
next
  case False
  assume "n < 100"
  with False show ?thesis by (simp add: pad2_def dec_lt_100)
qed

lemma div_mod_10_eq: "a div 10 = b div 10 \<Longrightarrow> a mod 10 = b mod 10 \<Longrightarrow> a = (b :: nat)"
  by (metis div_mult_mod_eq)

lemma two_digits_eq:
  assumes "a < 100" "b < 100" "(a div 10) mod 10 = (b div 10) mod 10" "a mod 10 = b mod 10"
  shows "a = (b :: nat)"
proof -
  have "a div 10 < 10" "b div 10 < 10"
    using assms(1,2) by simp_all
  with assms(3) have "a div 10 = b div 10"
    by simp
  then show ?thesis
    using assms(4) by (rule div_mod_10_eq)
qed

lemma four_digits_eq:
  assumes "a < 10000" "b < 10000" "(a div 1000) mod 10 = (b div 1000) mod 10"
    "(a div 100) mod 10 = (b div 100) mod 10" "(a div 10) mod 10 = (b div 10) mod 10"
    "a mod 10 = b mod 10"
  shows "a = (b :: nat)"
proof -
  have "a div 1000 < 10" "b div 1000 < 10"
    using assms(1,2) by simp_all
  with assms(3) have "a div 1000 = b div 1000"
    by simp
  then have "a div 100 div 10 = b div 100 div 10"
    by (simp add: div_mult2_eq [symmetric])
  then have "a div 100 = b div 100"
    using assms(4) by (rule div_mod_10_eq)
  then have "a div 10 div 10 = b div 10 div 10"
    by (simp add: div_mult2_eq [symmetric])
  then have "a div 10 = b div 10"
    using assms(5) by (rule div_mod_10_eq)
  then show ?thesis
    using assms(6) by (rule div_mod_10_eq)
qed

lemma getCurrentTimeAsString_format:
  assumes "valid_tm now"
  shows "getCurrentTimeAsString now =
     [digit (tm_year now div 1000), digit (tm_year now div 100), digit (tm_year now div 10),
      digit (tm_year now), CHR ''-'',
      digit (tm_mon now div 10), digit (tm_mon now), CHR ''-'',
      digit (tm_mday now div 10), digit (tm_mday now), CHR ''_'',
      digit (tm_hour now div 10), digit (tm_hour now),
      digit (tm_min now div 10), digit (tm_min now),
      digit (tm_sec now div 10), digit (tm_sec now)]"
proof -
  from assms have "1000 \<le> tm_year now" "tm_year now < 10000" "tm_mon now < 100"
    "tm_mday now < 100" "tm_hour now < 100" "tm_min now < 100" "tm_sec now < 100"
    by (simp_all add: valid_tm_def)
  then show ?thesis
    by (simp add: getCurrentTimeAsString_def dec_lt_10000 pad2_lt_100)
qed

lemma getCurrentTimeAsString_inj:
  assumes v1: "valid_tm t1" and v2: "valid_tm t2"
    and eq: "getCurrentTimeAsString t1 = getCurrentTimeAsString t2"
  shows "t1 = t2"
proof -
  from v1 have b1: "tm_year t1 < 10000" "tm_mon t1 < 100" "tm_mday t1 < 100"
    "tm_hour t1 < 100" "tm_min t1 < 100" "tm_sec t1 < 100"
    by (simp_all add: valid_tm_def)
  from v2 have b2: "tm_year t2 < 10000" "tm_mon t2 < 100" "tm_mday t2 < 100"
    "tm_hour t2 < 100" "tm_min t2 < 100" "tm_sec t2 < 100"
    by (simp_all add: valid_tm_def)
  from eq have d:
    "tm_year t1 div 1000 mod 10 = tm_year t2 div 1000 mod 10"
    "tm_year t1 div 100 mod 10 = tm_year t2 div 100 mod 10"
    "tm_year t1 div 10 mod 10 = tm_year t2 div 10 mod 10"
    "tm_year t1 mod 10 = tm_year t2 mod 10"
    "tm_mon t1 div 10 mod 10 = tm_mon t2 div 10 mod 10"
    "tm_mon t1 mod 10 = tm_mon t2 mod 10"
    "tm_mday t1 div 10 mod 10 = tm_mday t2 div 10 mod 10"
    "tm_mday t1 mod 10 = tm_mday t2 mod 10"
    "tm_hour t1 div 10 mod 10 = tm_hour t2 div 10 mod 10"
    "tm_hour t1 mod 10 = tm_hour t2 mod 10"
    "tm_min t1 div 10 mod 10 = tm_min t2 div 10 mod 10"
    "tm_min t1 mod 10 = tm_min t2 mod 10"
    "tm_sec t1 div 10 mod 10 = tm_sec t2 div 10 mod 10"
    "tm_sec t1 mod 10 = tm_sec t2 mod 10"
    unfolding getCurrentTimeAsString_format [OF v1] getCurrentTimeAsString_format [OF v2]
    by (simp_all add: digit_eq_iff)
  have "tm_year t1 = tm_year t2"
    using b1(1) b2(1) d(1-4) by (rule four_digits_eq)
  moreover have "tm_mon t1 = tm_mon t2"
    using b1(2) b2(2) d(5,6) by (rule two_digits_eq)
  moreover have "tm_mday t1 = tm_mday t2"
    using b1(3) b2(3) d(7,8) by (rule two_digits_eq)
  moreover have "tm_hour t1 = tm_hour t2"
    using b1(4) b2(4) d(9,10) by (rule two_digits_eq)
  moreover have "tm_min t1 = tm_min t2"
    using b1(5) b2(5) d(11,12) by (rule two_digits_eq)
  moreover have "tm_sec t1 = tm_sec t2"
    using b1(6) b2(6) d(13,14) by (rule two_digits_eq)
  ultimately show ?thesis
    by simp
qed

lemma appendTimestampToFilename_eq:
  "appendTimestampToFilename now filename =
     fst (splitext filename) @ ''_'' @ getCurrentTimeAsString now @ snd (splitext filename)"
  by (simp add: appendTimestampToFilename_def split_beta)

lemma splitext_append: "fst (splitext filename) @ snd (splitext filename) = filename"
  by (simp add: splitext_def Let_def)

lemma rfind_decomp:
  "p = rev (dropWhile (\<lambda>x. x \<noteq> c) (rev p)) @ rev (takeWhile (\<lambda>x. x \<noteq> c) (rev p))"
proof -
  have "rev p = takeWhile (\<lambda>x. x \<noteq> c) (rev p) @ dropWhile (\<lambda>x. x \<noteq> c) (rev p)"
    by simp
  then have "rev (rev p) =
      rev (takeWhile (\<lambda>x. x \<noteq> c) (rev p) @ dropWhile (\<lambda>x. x \<noteq> c) (rev p))"
    by (rule arg_cong)
  then show ?thesis
    by (simp only: rev_rev_ident rev_append)
qed

lemma drop_rfind: "c \<notin> set (drop (nat (rfind c p + 1)) p)"
proof -
  let ?dw = "dropWhile (\<lambda>x. x \<noteq> c) (rev p)" and ?tw = "takeWhile (\<lambda>x. x \<noteq> c) (rev p)"
  have "drop (length (rev ?dw)) (rev ?dw @ rev ?tw) = rev ?tw"
    by (rule append_eq_conv_conj [THEN iffD1, THEN conjunct2, symmetric]) simp
  then have "drop (length ?dw) p = rev ?tw"
    using rfind_decomp [of p c] by simp
  moreover have "c \<notin> set ?tw"
    by (auto dest: set_takeWhileD)
  ultimately show ?thesis
    by (simp add: rfind_def)
qed

lemma nth_rfind:
  assumes "0 \<le> rfind c p"
  shows "nat (rfind c p) < length p \<and> p ! nat (rfind c p) = c"
proof -
  let ?dw = "dropWhile (\<lambda>x. x \<noteq> c) (rev p)" and ?tw = "takeWhile (\<lambda>x. x \<noteq> c) (rev p)"
  from assms have ne: "?dw \<noteq> []"
    by (auto simp: rfind_def)
  then have hd: "hd ?dw = c"
    using hd_dropWhile [of "\<lambda>x. x \<noteq> c" "rev p"] by simp
  have n: "nat (rfind c p) = length ?dw - 1"
    by (simp add: rfind_def)
  have len: "length ?dw \<le> length p"
    using length_dropWhile_le [of "\<lambda>x. x \<noteq> c" "rev p"] by simp
  from ne have lt: "length ?dw - 1 < length (rev ?dw)"
    by (cases ?dw) simp_all
  have "(rev ?dw @ rev ?tw) ! (length ?dw - 1) = rev ?dw ! (length ?dw - 1)"
    using lt by (simp only: nth_append if_True)
  also have "\<dots> = last (rev ?dw)"
    using ne by (simp add: last_conv_nth)
  also have "\<dots> = c"
    using ne hd by (simp add: last_rev)
  finally have "p ! (length ?dw - 1) = c"
    using rfind_decomp [of p c] by simp
  moreover from ne len have "length ?dw - 1 < length p"
    by (cases ?dw) simp_all
  ultimately show ?thesis
    by (simp add: n)
qed

lemma splitext_ext:
  "snd (splitext p) = [] \<or>
   (\<exists>e. snd (splitext p) = CHR ''.'' # e \<and> CHR ''.'' \<notin> set e \<and> CHR ''/'' \<notin> set e)"
proof (cases "snd (splitext p) = []")
  case True
  then show ?thesis by simp
next
  case False
  let ?s = "rfind (CHR ''/'') p" and ?d = "rfind (CHR ''.'') p"
  from False have gt: "?s < ?d" and ext: "snd (splitext p) = drop (nat ?d) p"
    by (auto simp: splitext_def Let_def split: if_splits)
  have "- 1 \<le> ?s"
    by (simp add: rfind_def)
  with gt have d0: "0 \<le> ?d"
    by simp
  from nth_rfind [OF d0] have lt: "nat ?d < length p" and at: "p ! nat ?d = CHR ''.''"
    by simp_all
  from lt have "drop (nat ?d) p = p ! nat ?d # drop (Suc (nat ?d)) p"
    by (rule Cons_nth_drop_Suc [symmetric])
  with at have e: "snd (splitext p) = CHR ''.'' # drop (Suc (nat ?d)) p"
    by (simp add: ext)
  from d0 have suc: "Suc (nat ?d) = nat (?d + 1)"
    by simp
  have "CHR ''.'' \<notin> set (drop (Suc (nat ?d)) p)"
    unfolding suc by (rule drop_rfind)
  moreover have "CHR ''/'' \<notin> set (drop (Suc (nat ?d)) p)"
  proof -
    from gt d0 have "nat (?s + 1) \<le> Suc (nat ?d)"
      by simp
    then have "set (drop (Suc (nat ?d)) p) \<subseteq> set (drop (nat (?s + 1)) p)"
      by (rule set_drop_subset_set_drop)
    with drop_rfind [of "CHR ''/''" p] show ?thesis
      by blast
  qed
  ultimately show ?thesis
    using e by simp
qed

lemma splitext_out_a: "splitext ''out/a.docx'' = (''out/a'', ''.docx'')"
  by (simp add: splitext_def rfind_def Let_def)

lemma splitext_bla: "splitext ''bla.txt'' = (''bla'', ''.txt'')"
  by (simp add: splitext_def rfind_def Let_def)

lemma valid_example_time: "valid_tm example_time"
  by (simp add: valid_tm_def example_time_def)

lemma stamp_example_time: "getCurrentTimeAsString example_time = ''2020-08-19_151221''"
  unfolding getCurrentTimeAsString_format [OF valid_example_time]
  by (simp add: example_time_def digit_def)

text \<open>
  Claim C9 says that two runs at different times produce differing file names. It does not
  hold for runs that are less than a second apart: the stamp counts whole seconds, so two
  instants within the same second of local time give the same name, here the name of the
  example in the docstring of \<^verbatim>\<open>appendTimestampToFilename\<close>.
\<close>

theorem runs_within_one_second_share_filename:
  "example_instant \<noteq> same_second_instant \<and>
   appendTimestampToFilename (localtime example_instant) ''bla.txt'' =
     ''bla_2020-08-19_151221.txt'' \<and>
   appendTimestampToFilename (localtime same_second_instant) ''bla.txt'' =
     ''bla_2020-08-19_151221.txt''"
  by (simp add: example_instant_def same_second_instant_def appendTimestampToFilename_eq
      splitext_bla stamp_example_time)

text \<open>
  Claim C9, amended. With \<^verbatim>\<open>name, ext = os.path.splitext(filename)\<close>, the stamped file
  name is \<open>name\<close>, an underscore, the stamp and \<open>ext\<close>. Name and extension together are
  the file name, and the extension is empty or starts at the last dot of the last path
  component. The stamp is the local time of the instant of stamping; for a year of four
  digits it has the form \<^verbatim>\<open>YYYY-MM-DD_HHMMSS\<close>, seventeen characters. Two stampings of one
  file name give the same name exactly when their local times agree to the second: the
  names differ whenever the local times differ, and they are equal for instants within one
  second.
\<close>

theorem timestamp_inserted_before_extension:
  "appendTimestampToFilename (localtime i) filename =
     fst (splitext filename) @ ''_'' @ getCurrentTimeAsString (localtime i) @
     snd (splitext filename) \<and>
   fst (splitext filename) @ snd (splitext filename) = filename \<and>
   (snd (splitext filename) = [] \<or>
    (\<exists>e. snd (splitext filename) = CHR ''.'' # e \<and> CHR ''.'' \<notin> set e \<and>
         CHR ''/'' \<notin> set e)) \<and>
   (valid_tm (localtime i) \<longrightarrow>
      getCurrentTimeAsString (localtime i) =
        [digit (tm_year (localtime i) div 1000), digit (tm_year (localtime i) div 100),
         digit (tm_year (localtime i) div 10), digit (tm_year (localtime i)), CHR ''-'',
         digit (tm_mon (localtime i) div 10), digit (tm_mon (localtime i)), CHR ''-'',
         digit (tm_mday (localtime i) div 10), digit (tm_mday (localtime i)), CHR ''_'',
         digit (tm_hour (localtime i) div 10), digit (tm_hour (localtime i)),
         digit (tm_min (localtime i) div 10), digit (tm_min (localtime i)),
         digit (tm_sec (localtime i) div 10), digit (tm_sec (localtime i))]) \<and>
   (valid_tm (localtime i) \<and> valid_tm (localtime j) \<longrightarrow>
      (appendTimestampToFilename (localtime i) filename =
         appendTimestampToFilename (localtime j) filename \<longleftrightarrow>
       localtime i = localtime j))"
proof (intro conjI impI)
  show "appendTimestampToFilename (localtime i) filename =
     fst (splitext filename) @ ''_'' @ getCurrentTimeAsString (localtime i) @
     snd (splitext filename)"
    by (rule appendTimestampToFilename_eq)
next
  show "fst (splitext filename) @ snd (splitext filename) = filename"
    by (rule splitext_append)
next
  show "snd (splitext filename) = [] \<or>
    (\<exists>e. snd (splitext filename) = CHR ''.'' # e \<and> CHR ''.'' \<notin> set e \<and>
         CHR ''/'' \<notin> set e)"
    by (rule splitext_ext)
next
  assume "valid_tm (localtime i)"
  then show "getCurrentTimeAsString (localtime i) =
        [digit (tm_year (localtime i) div 1000), digit (tm_year (localtime i) div 100),
         digit (tm_year (localtime i) div 10), digit (tm_year (localtime i)), CHR ''-'',
         digit (tm_mon (localtime i) div 10), digit (tm_mon (localtime i)), CHR ''-'',
         digit (tm_mday (localtime i) div 10), digit (tm_mday (localtime i)), CHR ''_'',
         digit (tm_hour (localtime i) div 10), digit (tm_hour (localtime i)),
         digit (tm_min (localtime i) div 10), digit (tm_min (localtime i)),
         digit (tm_sec (localtime i) div 10), digit (tm_sec (localtime i))]"
    by (rule getCurrentTimeAsString_format)
next
  assume v: "valid_tm (localtime i) \<and> valid_tm (localtime j)"
  show "appendTimestampToFilename (localtime i) filename =
         appendTimestampToFilename (localtime j) filename \<longleftrightarrow>
       localtime i = localtime j"
  proof
    assume "appendTimestampToFilename (localtime i) filename =
         appendTimestampToFilename (localtime j) filename"
    then have "getCurrentTimeAsString (localtime i) = getCurrentTimeAsString (localtime j)"
      by (simp add: appendTimestampToFilename_eq)
    with v show "localtime i = localtime j"
      by (blast intro: getCurrentTimeAsString_inj)
  next
    assume "localtime i = localtime j"
    then show "appendTimestampToFilename (localtime i) filename =
         appendTimestampToFilename (localtime j) filename"
      by simp
  qed
qed

theorem timestamp_inserted_before_extension_witness:
  "valid_tm (localtime example_instant) \<and> valid_tm (localtime next_second_instant) \<and>
   snd (splitext ''out/a.docx'') = ''.docx'' \<and>
   appendTimestampToFilename (localtime example_instant) ''out/a.docx'' =
     ''out/a_2020-08-19_151221.docx'' \<and>
   appendTimestampToFilename (localtime next_second_instant) ''out/a.docx'' \<noteq>
     appendTimestampToFilename (localtime example_instant) ''out/a.docx''"
proof -
  have v1: "valid_tm (localtime example_instant)"
    by (simp add: example_instant_def valid_example_time)
  have v2: "valid_tm (localtime next_second_instant)"
    by (simp add: next_second_instant_def valid_tm_def example_time_def)
  have ne: "localtime next_second_instant \<noteq> localtime example_instant"
    by (simp add: next_second_instant_def example_instant_def example_time_def)
  have ext: "snd (splitext ''out/a.docx'') = ''.docx''"
    by (simp add: splitext_out_a)
  have "appendTimestampToFilename (localtime example_instant) ''out/a.docx'' =
     fst (splitext ''out/a.docx'') @ ''_'' @ getCurrentTimeAsString (localtime example_instant) @
     snd (splitext ''out/a.docx'')"
    using timestamp_inserted_before_extension [of example_instant "''out/a.docx''"]
    by blast
  then have a: "appendTimestampToFilename (localtime example_instant) ''out/a.docx'' =
     ''out/a_2020-08-19_151221.docx''"
    by (simp add: splitext_out_a example_instant_def stamp_example_time)
  have "appendTimestampToFilename (localtime next_second_instant) ''out/a.docx'' =
         appendTimestampToFilename (localtime example_instant) ''out/a.docx'' \<longleftrightarrow>
       localtime next_second_instant = localtime example_instant"
    using timestamp_inserted_before_extension [of next_second_instant "''out/a.docx''"
        example_instant] v1 v2
    by blast
  with ne have b: "appendTimestampToFilename (localtime next_second_instant) ''out/a.docx'' \<noteq>
     appendTimestampToFilename (localtime example_instant) ''out/a.docx''"
    by simp
  from v1 v2 ext a b show ?thesis
    by blast
qed

section \<open>The pairing of file names and content columns\<close>

lemma row_body_contentColumns [simp]:
  "row_body sh (cfg\<lparr>contentColumns := cs\<rparr>) = row_body sh cfg"
  by (intro ext) (simp add: row_body_def)

lemma row_body_outputFilenames [simp]:
  "row_body sh (cfg\<lparr>outputFilenames := fs\<rparr>) = row_body sh cfg"
  by (intro ext) (simp add: row_body_def)

lemma generateOutputFile_contentColumns [simp]:
  "generateOutputFile w sh (cfg\<lparr>contentColumns := cs\<rparr>) = generateOutputFile w sh cfg"
  by (intro ext) (simp add: generateOutputFile_def rows_loop_run_rows split_beta)

lemma generateOutputFile_outputFilenames [simp]:
  "generateOutputFile w sh (cfg\<lparr>outputFilenames := fs\<rparr>) = generateOutputFile w sh cfg"
  by (intro ext) (simp add: generateOutputFile_def rows_loop_run_rows split_beta)

lemma length_stamped [simp]: "length (stamped clk k fs) = length fs"
  by (simp add: stamped_def)

lemma nth_stamped:
  "i < length fs \<Longrightarrow> stamped clk k fs ! i = appendTimestampToFilename (clk (k + i)) (fs ! i)"
  by (simp add: stamped_def)

lemma zip_stamped_paired: "zip (stamped clk 0 (outputFilenames cfg)) (contentColumns cfg) = paired clk cfg"
  unfolding paired_def
  by (rule nth_equalityI) (simp_all add: nth_stamped)

lemma length_paired [simp]: "length (paired clk cfg) = pair_count cfg"
  by (simp add: paired_def pair_count_def)


lemma without_makedirs_MakeDirs [simp]:
  "without_makedirs (map (\<lambda>f. MakeDirs (g f)) fs @ evs) = without_makedirs evs"
  by (induction fs) (simp_all add: without_makedirs_def)

lemma without_makedirs_MakeDirs_only [simp]:
  "without_makedirs (map (\<lambda>f. MakeDirs (g f)) fs) = []"
  by (induction fs) (simp_all add: without_makedirs_def)

lemma generateDocxFromXlsx_paired:
  "generateDocxFromXlsx w sh cfg =
     (if \<forall>f \<in> set (outputFilenames cfg). dirname f \<noteq> []
      then (map (\<lambda>f. MakeDirs (dirname f)) (outputFilenames cfg) @
              fst (for_all (generateOutputFile w sh cfg) (paired (clock w) cfg)),
            snd (for_all (generateOutputFile w sh cfg) (paired (clock w) cfg)))
      else (map (\<lambda>f. MakeDirs (dirname f))
              (takeWhile (\<lambda>f. dirname f \<noteq> []) (outputFilenames cfg)),
            Inl FileNotFoundError))"
  by (simp add: generateDocxFromXlsx_def appendTimestampToFilenames_spec zip_stamped_paired)



lemma example_generate:
  assumes "1 \<le> c"
  shows "generateOutputFile example_world example_sheet example_config (f, c) =
     ([Generate f ''template.docx'', Author ''ernst'',
       Unexpected ''foo'' (as_text (cell_value example_sheet 3 c)),
       Saved f (small_doc\<lparr>author := ''ernst''\<rparr>)],
      Inr ())"
proof -
  have t: "templateFilename example_config = ''template.docx''"
    by (simp add: example_config_def)
  have l: "[contentStartRow example_config..max_row example_sheet] = [2, 3]"
    by (simp add: example_config_def example_sheet_def upto_rec1)
  have r2: "\<And>d. row_body example_sheet example_config c 2 d = ([], Inr d)"
    using assms
    by (intro row_body_skipped) (simp_all add: example_config_def example_sheet_def)
  have r3: "\<And>d. row_body example_sheet example_config c 3 d =
      ([Unexpected ''foo'' (as_text (cell_value example_sheet 3 c))], Inr d)"
    using assms
    by (intro row_body_unexpected) (simp_all add: example_config_def example_sheet_def)
  show ?thesis
    by (simp add: generateOutputFile_rows [OF example_world_template example_world_user]
        l t r2 r3 emit_def ret_def)
qed

lemma dirname_out: "dirname ''out/a.docx'' = ''out''" "dirname ''out/b.docx'' = ''out''"
  "dirname ''out/c.docx'' = ''out''" "dirname ''b.docx'' = []"
  by (simp_all add: dirname_def rfind_def Let_def)

lemma splitext_out: "splitext ''out/b.docx'' = (''out/b'', ''.docx'')"
  by (simp add: splitext_def rfind_def Let_def)

lemma clock_example_world: "clock example_world k = example_time"
  by (simp add: example_world_def)

lemma paired_three_files:
  "paired (clock example_world) three_files_config =
     [(''out/a_2020-08-19_151221.docx'', 4), (''out/b_2020-08-19_151221.docx'', 5)]"
proof -
  have "[0..<2] = [0, Suc 0]"
    by (simp add: upt_rec)
  then show ?thesis
    by (simp add: paired_def three_files_config_def example_config_def clock_example_world
        appendTimestampToFilename_eq splitext_out_a splitext_out stamp_example_time)
qed

lemma generate_three_files:
  "generateOutputFile example_world example_sheet three_files_config =
   generateOutputFile example_world example_sheet example_config"
  by (simp add: three_files_config_def)

lemma run_three_files:
  "generateDocxFromXlsx example_world example_sheet three_files_config =
     ([MakeDirs ''out'', MakeDirs ''out'', MakeDirs ''out'',
       Generate ''out/a_2020-08-19_151221.docx'' ''template.docx'', Author ''ernst'',
       Unexpected ''foo'' (Some ''Some text''),
       Saved ''out/a_2020-08-19_151221.docx'' (small_doc\<lparr>author := ''ernst''\<rparr>),
       Generate ''out/b_2020-08-19_151221.docx'' ''template.docx'', Author ''ernst'',
       Unexpected ''foo'' None,
       Saved ''out/b_2020-08-19_151221.docx'' (small_doc\<lparr>author := ''ernst''\<rparr>)],
      Inr ())"
proof -
  have fs: "outputFilenames three_files_config = [''out/a.docx'', ''out/b.docx'', ''out/c.docx'']"
    by (simp add: three_files_config_def)
  have c4: "as_text (cell_value example_sheet 3 4) = Some ''Some text''"
    and c5: "as_text (cell_value example_sheet 3 5) = None"
    by (simp_all add: example_sheet_def)
  show ?thesis
    unfolding generateDocxFromXlsx_paired paired_three_files generate_three_files
    by (simp add: fs dirname_out example_generate c4 c5 ret_def)
qed






end
